theory Spec2Isabelle
  imports Complex_Main
begin

section \<open>Drift monitoring: the \<open>Monitor\<close> class of 04-Production/01-Monitoring.py\<close>

text \<open>
  The class compares two pandas data frames (two time windows) feature by feature.
  Numeric features go through \<open>stats.ks_2samp\<close>, categorical ones through
  \<open>stats.chi2_contingency\<close> on a table of category counts; both p-values are
  compared with a Bonferroni-corrected threshold, and \<open>on_drift\<close> prints one line for
  every feature found to have drifted.

  Modelling decisions.
  \<^item> A pandas Series is a list of optional values, \<open>None\<close> being the null (NaN/None).
  \<^item> A DataFrame is an association list from column name to Series, in column order.
  \<^item> Python floats (alpha, p-values, summary statistics) are real numbers; the results
    of numpy's division, which may be infinite or NaN, have their own type.
  \<^item> The two scipy tests and pandas' \<open>describe\<close> are not part of the repository:
    they are parameters of the model (\<open>ks\<close>, \<open>chi2\<close>, \<open>descr\<close>). A test may raise.
  \<^item> \<open>print\<close> appends a line to an output log that is threaded through the calls and
    survives an exception, as standard output does.
\<close>

subsection \<open>Data\<close>

datatype error = ValueError | AssertionError | KeyError string | ZeroDivisionError

type_synonym 'v series = "'v option list"

type_synonym 'v frame = "(string \<times> 'v series) list"

type_synonym outcome = "(error + unit) \<times> string list"

record 'v monitor =
  pdf1 :: "'v frame"
  pdf2 :: "'v frame"
  alpha :: real
  categorical_columns :: "string list"
  continuous_columns :: "string list"

text \<open>\<open>df.columns\<close> and \<open>df[name]\<close>; the latter raises KeyError for an unknown column.\<close>

definition columns :: "'v frame \<Rightarrow> string list" where
  "columns df = map fst df"

definition getitem :: "'v frame \<Rightarrow> string \<Rightarrow> error + 'v series" where
  "getitem df name = (case map_of df name of None \<Rightarrow> Inl (KeyError name) | Some s \<Rightarrow> Inr s)"

subsection \<open>Construction\<close>

text \<open>
  \<open>assert (pdf1.columns == pdf2.columns).all(), "Columns do not match"\<close>.
  The comparison of two pandas indexes is elementwise and raises ValueError when their
  lengths differ; otherwise the assertion fails when some position differs.
\<close>

definition Monitor_init ::
  "'v frame \<Rightarrow> 'v frame \<Rightarrow> string list \<Rightarrow> string list \<Rightarrow> real \<Rightarrow> error + 'v monitor" where
  "Monitor_init p1 p2 cat_cols num_cols a =
     (if length (columns p1) \<noteq> length (columns p2) then Inl ValueError
      else if columns p1 \<noteq> columns p2 then Inl AssertionError
      else Inr \<lparr>pdf1 = p1, pdf2 = p2, alpha = a,
                categorical_columns = cat_cols, continuous_columns = num_cols\<rparr>)"

subsection \<open>Reacting to drift\<close>

text \<open>\<open>print(f"Drift found in {feature}!")\<close>\<close>

definition drift_message :: "string \<Rightarrow> string" where
  "drift_message feature = ''Drift found in '' @ feature @ ''!''"

definition on_drift :: "string \<Rightarrow> string list \<Rightarrow> string list" where
  "on_drift feature out = out @ [drift_message feature]"

subsection \<open>Numeric features\<close>

text \<open>
  The arguments of \<open>stats.ks_2samp(self.pdf1[num], self.pdf2[num], mode="asymp")\<close> are
  evaluated left to right, then the test runs; only its p-value is used.
\<close>

definition numeric_pvalue ::
  "('v series \<Rightarrow> 'v series \<Rightarrow> error + real) \<Rightarrow> 'v monitor \<Rightarrow> string \<Rightarrow> error + real" where
  "numeric_pvalue ks m num =
     (case getitem (pdf1 m) num of
        Inl e \<Rightarrow> Inl e
      | Inr s1 \<Rightarrow>
          (case getitem (pdf2 m) num of
             Inl e \<Rightarrow> Inl e
           | Inr s2 \<Rightarrow> ks s1 s2))"

text \<open>The \<open>for num in self.continuous_columns\<close> loop, with the threshold it was given.\<close>

fun numeric_loop ::
  "('v series \<Rightarrow> 'v series \<Rightarrow> error + real) \<Rightarrow> 'v monitor \<Rightarrow> real \<Rightarrow> string list \<Rightarrow>
   string list \<Rightarrow> outcome" where
  "numeric_loop ks m corrected_alpha [] out = (Inr (), out)"
| "numeric_loop ks m corrected_alpha (num # rest) out =
     (case numeric_pvalue ks m num of
        Inl e \<Rightarrow> (Inl e, out)
      | Inr ks_pval \<Rightarrow>
          numeric_loop ks m corrected_alpha rest
            (if ks_pval \<le> corrected_alpha then on_drift num out else out))"

text \<open>
  \<open>corrected_alpha = self.alpha / len(self.continuous_columns)\<close>: Python raises
  ZeroDivisionError when the list is empty.
\<close>

definition handle_numeric ::
  "('v series \<Rightarrow> 'v series \<Rightarrow> error + real) \<Rightarrow> 'v monitor \<Rightarrow> string list \<Rightarrow> outcome" where
  "handle_numeric ks m out =
     (if length (continuous_columns m) = 0 then (Inl ZeroDivisionError, out)
      else numeric_loop ks m (alpha m / real (length (continuous_columns m)))
             (continuous_columns m) out)"

subsection \<open>Categorical features\<close>

text \<open>
  \<open>Series.value_counts()\<close> counts every distinct value of the series and, by its
  default \<open>dropna=True\<close>, leaves the nulls out. pandas orders the rows by descending
  count; that order is not modelled, since \<open>sort_index()\<close> reorders them by category at
  once. \<open>rename\<close> only relabels the count column.
\<close>

definition value_counts :: "'v series \<Rightarrow> ('v \<times> nat) list" where
  "value_counts s = map (\<lambda>c. (c, count_list s (Some c))) (remdups (List.map_filter id s))"

definition sort_index :: "('v::linorder \<times> nat) list \<Rightarrow> ('v \<times> nat) list" where
  "sort_index t = sort_key fst t"

text \<open>
  \<open>pdf_count1.join(pdf_count2, how="outer")\<close>: the index is the sorted union of both
  indexes, a side that lacks a category has a null there; \<open>fillna(0)\<close> makes it 0.
\<close>

definition join_outer ::
  "('v::linorder \<times> nat) list \<Rightarrow> ('v \<times> nat) list \<Rightarrow> ('v \<times> nat option \<times> nat option) list" where
  "join_outer l r = map (\<lambda>k. (k, map_of l k, map_of r k)) (sort (remdups (map fst l @ map fst r)))"

definition fillna0 :: "('v \<times> nat option \<times> nat option) list \<Rightarrow> ('v \<times> nat \<times> nat) list" where
  "fillna0 t = map (\<lambda>(k, a, b). (k, case_option 0 id a, case_option 0 id b)) t"

text \<open>\<open>obs = np.array([pdf_counts["pdf1"], pdf_counts["pdf2"]])\<close>\<close>

definition contingency_table :: "'v::linorder series \<Rightarrow> 'v series \<Rightarrow> nat list list" where
  "contingency_table s1 s2 =
     (let pdf_count1 = sort_index (value_counts s1);
          pdf_count2 = sort_index (value_counts s2);
          pdf_counts = fillna0 (join_outer pdf_count1 pdf_count2)
      in [map (\<lambda>(k, a, b). a) pdf_counts, map (\<lambda>(k, a, b). b) pdf_counts])"

definition categorical_pvalue ::
  "(nat list list \<Rightarrow> error + real) \<Rightarrow> 'v::linorder monitor \<Rightarrow> string \<Rightarrow> error + real" where
  "categorical_pvalue chi2 m feature =
     (case getitem (pdf1 m) feature of
        Inl e \<Rightarrow> Inl e
      | Inr s1 \<Rightarrow>
          (case getitem (pdf2 m) feature of
             Inl e \<Rightarrow> Inl e
           | Inr s2 \<Rightarrow> chi2 (contingency_table s1 s2)))"

fun categorical_loop ::
  "(nat list list \<Rightarrow> error + real) \<Rightarrow> 'v::linorder monitor \<Rightarrow> real \<Rightarrow> string list \<Rightarrow>
   string list \<Rightarrow> outcome" where
  "categorical_loop chi2 m corrected_alpha [] out = (Inr (), out)"
| "categorical_loop chi2 m corrected_alpha (feature # rest) out =
     (case categorical_pvalue chi2 m feature of
        Inl e \<Rightarrow> (Inl e, out)
      | Inr p \<Rightarrow>
          categorical_loop chi2 m corrected_alpha rest
            (if p < corrected_alpha then on_drift feature out else out))"

definition handle_categorical ::
  "(nat list list \<Rightarrow> error + real) \<Rightarrow> 'v::linorder monitor \<Rightarrow> string list \<Rightarrow> outcome" where
  "handle_categorical chi2 m out =
     (if length (categorical_columns m) = 0 then (Inl ZeroDivisionError, out)
      else categorical_loop chi2 m (alpha m / real (length (categorical_columns m)))
             (categorical_columns m) out)"

subsection \<open>The run\<close>

text \<open>\<open>self.handle_numeric(); self.handle_categorical()\<close>: an exception ends the run.\<close>

definition run ::
  "('v series \<Rightarrow> 'v series \<Rightarrow> error + real) \<Rightarrow> (nat list list \<Rightarrow> error + real) \<Rightarrow>
   'v::linorder monitor \<Rightarrow> string list \<Rightarrow> outcome" where
  "run ks chi2 m out =
     (case handle_numeric ks m out of
        (Inl e, out') \<Rightarrow> (Inl e, out')
      | (Inr u, out') \<Rightarrow> handle_categorical chi2 m out')"

text \<open>The notebook's own use: \<open>drift_monitor = Monitor(pdf1, pdf2, cat_cols, num_cols)\<close>
  followed by \<open>drift_monitor.run()\<close>, on an empty output.\<close>

definition drift_monitor_run ::
  "('v series \<Rightarrow> 'v series \<Rightarrow> error + real) \<Rightarrow> (nat list list \<Rightarrow> error + real) \<Rightarrow>
   'v::linorder frame \<Rightarrow> 'v frame \<Rightarrow> string list \<Rightarrow> string list \<Rightarrow> real \<Rightarrow> outcome" where
  "drift_monitor_run ks chi2 p1 p2 cat_cols num_cols a =
     (case Monitor_init p1 p2 cat_cols num_cols a of
        Inl e \<Rightarrow> (Inl e, [])
      | Inr drift_monitor \<Rightarrow> run ks chi2 drift_monitor [])"

subsection \<open>Percent change of the summary statistics\<close>

datatype stat = Count | Mean | Std | Min | Q25 | Q50 | Q75 | Max

text \<open>The value of a numpy float expression: a finite number, infinity (unsigned after
  \<open>abs\<close>) or NaN.\<close>

datatype npfloat = Fin real | PosInf | NaN

definition eps :: real where
  "eps = 1 / 10 ^ 100"

text \<open>
  One cell of \<open>100 * abs((summary1_pdf - summary2_pdf) / (summary1_pdf + 1e-100))\<close>.
  numpy does not raise on a zero divisor: the quotient is NaN for 0/0 and infinite
  otherwise.
\<close>

definition percent_change_cell :: "real \<Rightarrow> real \<Rightarrow> npfloat" where
  "percent_change_cell a b =
     (if a + eps = 0 then (if a - b = 0 then NaN else PosInf)
      else Fin (100 * \<bar>(a - b) / (a + eps)\<bar>))"

text \<open>\<open>df.describe()[self.continuous_columns]\<close>: one column of statistics for every
  listed feature, KeyError when a feature is not a column.\<close>

fun summary :: "('v series \<Rightarrow> stat \<Rightarrow> real) \<Rightarrow> 'v frame \<Rightarrow> string list \<Rightarrow>
   error + (string \<times> (stat \<Rightarrow> real)) list" where
  "summary descr df [] = Inr []"
| "summary descr df (c # cs) =
     (case getitem df c of
        Inl e \<Rightarrow> Inl e
      | Inr s \<Rightarrow>
          (case summary descr df cs of
             Inl e \<Rightarrow> Inl e
           | Inr r \<Rightarrow> Inr ((c, descr s) # r)))"

definition generate_percent_change ::
  "('v series \<Rightarrow> stat \<Rightarrow> real) \<Rightarrow> 'v monitor \<Rightarrow> error + (string \<times> (stat \<Rightarrow> npfloat)) list" where
  "generate_percent_change descr m =
     (case summary descr (pdf1 m) (continuous_columns m) of
        Inl e \<Rightarrow> Inl e
      | Inr summary1_pdf \<Rightarrow>
          (case summary descr (pdf2 m) (continuous_columns m) of
             Inl e \<Rightarrow> Inl e
           | Inr summary2_pdf \<Rightarrow>
               Inr (map2 (\<lambda>(c, s1) (c', s2). (c, \<lambda>st. percent_change_cell (s1 st) (s2 st)))
                      summary1_pdf summary2_pdf)))"

subsection \<open>Vocabulary of the properties\<close>

text \<open>The verdict of one feature against a threshold: the condition of the \<open>if\<close> that
  guards \<open>on_drift\<close>, false when the p-value could not be computed.\<close>

definition numeric_drift ::
  "('v series \<Rightarrow> 'v series \<Rightarrow> error + real) \<Rightarrow> 'v monitor \<Rightarrow> real \<Rightarrow> string \<Rightarrow> bool" where
  "numeric_drift ks m ca f = (case numeric_pvalue ks m f of Inl e \<Rightarrow> False | Inr p \<Rightarrow> p \<le> ca)"

definition categorical_drift ::
  "(nat list list \<Rightarrow> error + real) \<Rightarrow> 'v::linorder monitor \<Rightarrow> real \<Rightarrow> string \<Rightarrow> bool" where
  "categorical_drift chi2 m ca f =
     (case categorical_pvalue chi2 m f of Inl e \<Rightarrow> False | Inr p \<Rightarrow> p < ca)"

text \<open>The non-null values seen in either window, in ascending order.\<close>

definition categories :: "'v::linorder series \<Rightarrow> 'v series \<Rightarrow> 'v list" where
  "categories s1 s2 = sorted_list_of_set {c. Some c \<in> set s1 \<union> set s2}"

text \<open>The series of a column that is present (empty for a name that is no column).\<close>

definition column :: "'v frame \<Rightarrow> string \<Rightarrow> 'v series" where
  "column df c = (case getitem df c of Inl e \<Rightarrow> [] | Inr s \<Rightarrow> s)"

subsection \<open>A concrete monitor\<close>

text \<open>
  Two windows of three listings each. In the second window the price has doubled, the
  reviews are all null and two of the zones are null; beds and room type are unchanged.
  A third window has the same columns and no rows at all.
  The two library tests are replaced by stand-ins that can be evaluated. The one for
  \<open>ks_2samp\<close> raises ValueError for a sample of length zero ("Data passed to ks_2samp
  must not be empty") and takes any other sample as it is, nulls included. The one for
  \<open>chi2_contingency\<close> raises ValueError for a table without entries and for a table with
  a row of zeros (an expected frequency would be zero). Otherwise both give p = 1 for
  equal inputs and p = 0 for different ones.
\<close>

definition ks_example :: "int series \<Rightarrow> int series \<Rightarrow> error + real" where
  "ks_example s1 s2 =
     (if s1 = [] \<or> s2 = [] then Inl ValueError
      else Inr (if s1 = s2 then 1 else 0))"

definition chi2_example :: "nat list list \<Rightarrow> error + real" where
  "chi2_example obs =
     (if concat obs = [] \<or> list_ex (\<lambda>row. sum_list row = 0) obs then Inl ValueError
      else Inr (if distinct obs then 0 else 1))"

definition window1 :: "int frame" where
  "window1 =
     [(''price'', [Some 100, Some 150, Some 200]),
      (''beds'', [Some 1, Some 2, Some 2]),
      (''reviews'', [Some 5, Some 6, Some 7]),
      (''room_type'', [Some 0, Some 1, Some 1]),
      (''zone'', [Some 3, Some 3, Some 4])]"

definition window2 :: "int frame" where
  "window2 =
     [(''price'', [Some 200, Some 300, Some 400]),
      (''beds'', [Some 1, Some 2, Some 2]),
      (''reviews'', [None, None, None]),
      (''room_type'', [Some 0, Some 1, Some 1]),
      (''zone'', [Some 3, None, None])]"

definition no_rows :: "int frame" where
  "no_rows =
     [(''price'', []), (''beds'', []), (''reviews'', []), (''room_type'', []), (''zone'', [])]"

definition example_monitor :: "int monitor" where
  "example_monitor =
     \<lparr>pdf1 = window1, pdf2 = window2, alpha = 1 / 20,
      categorical_columns = [''zone'', ''room_type''],
      continuous_columns = [''price'', ''beds'']\<rparr>"

text \<open>A stand-in for \<open>describe\<close> on integer columns: it knows the count, mean, minimum
  and maximum of the non-null values and answers 0 for the other statistics.\<close>

definition descr_example :: "int series \<Rightarrow> stat \<Rightarrow> real" where
  "descr_example s st =
     (let xs = List.map_filter id s in
      case st of
        Count \<Rightarrow> real (length xs)
      | Mean \<Rightarrow> real_of_int (sum_list xs) / real (length xs)
      | Min \<Rightarrow> real_of_int (fold min xs (hd xs))
      | Max \<Rightarrow> real_of_int (fold max xs (hd xs))
      | _ \<Rightarrow> 0)"

section \<open>Properties\<close>

subsection \<open>The two loops\<close>

lemma on_drift_message: "on_drift f out = out @ [drift_message f]"
  by (simp add: on_drift_def)

lemma drift_message_inject: "drift_message f = drift_message g \<longleftrightarrow> f = g"
  by (simp add: drift_message_def)

lemma numeric_loop_completes:
  "\<forall>f\<in>set fs. \<exists>p. numeric_pvalue ks m f = Inr p \<Longrightarrow>
   numeric_loop ks m ca fs out =
     (Inr (), out @ map drift_message (filter (numeric_drift ks m ca) fs))"
proof (induction fs arbitrary: out)
  case Nil
  show ?case by simp
next
  case (Cons f fs)
  then obtain p where p: "numeric_pvalue ks m f = Inr p" by auto
  from Cons have rest: "\<forall>g\<in>set fs. \<exists>p. numeric_pvalue ks m g = Inr p" by simp
  show ?case
    by (simp add: p Cons.IH [OF rest] numeric_drift_def on_drift_message)
qed

lemma numeric_loop_raises:
  "\<forall>g\<in>set pre. \<exists>p. numeric_pvalue ks m g = Inr p \<Longrightarrow> numeric_pvalue ks m f = Inl e \<Longrightarrow>
   numeric_loop ks m ca (pre @ f # post) out =
     (Inl e, out @ map drift_message (filter (numeric_drift ks m ca) pre))"
proof (induction pre arbitrary: out)
  case Nil
  then show ?case by simp
next
  case (Cons g pre)
  then obtain p where p: "numeric_pvalue ks m g = Inr p" by auto
  from Cons have rest: "\<forall>g\<in>set pre. \<exists>p. numeric_pvalue ks m g = Inr p" by simp
  show ?case
    by (simp add: p Cons.IH [OF rest Cons.prems(2)] numeric_drift_def on_drift_message)
qed

lemma numeric_loop_success:
  "numeric_loop ks m ca fs out = (Inr u, out') \<Longrightarrow>
   (\<forall>f\<in>set fs. \<exists>p. numeric_pvalue ks m f = Inr p) \<and>
   out' = out @ map drift_message (filter (numeric_drift ks m ca) fs)"
proof (induction fs arbitrary: out)
  case Nil
  then show ?case by simp
next
  case (Cons f fs)
  from Cons.prems obtain p where p: "numeric_pvalue ks m f = Inr p"
    by (cases "numeric_pvalue ks m f") auto
  with Cons.prems have
    "numeric_loop ks m ca fs (if p \<le> ca then on_drift f out else out) = (Inr u, out')"
    by simp
  from Cons.IH [OF this] show ?case
    by (simp add: p numeric_drift_def on_drift_message)
qed

lemma categorical_loop_completes:
  "\<forall>f\<in>set fs. \<exists>p. categorical_pvalue chi2 m f = Inr p \<Longrightarrow>
   categorical_loop chi2 m ca fs out =
     (Inr (), out @ map drift_message (filter (categorical_drift chi2 m ca) fs))"
proof (induction fs arbitrary: out)
  case Nil
  show ?case by simp
next
  case (Cons f fs)
  then obtain p where p: "categorical_pvalue chi2 m f = Inr p" by auto
  from Cons have rest: "\<forall>g\<in>set fs. \<exists>p. categorical_pvalue chi2 m g = Inr p" by simp
  show ?case
    by (simp add: p Cons.IH [OF rest] categorical_drift_def on_drift_message)
qed

lemma categorical_loop_raises:
  "\<forall>g\<in>set pre. \<exists>p. categorical_pvalue chi2 m g = Inr p \<Longrightarrow>
   categorical_pvalue chi2 m f = Inl e \<Longrightarrow>
   categorical_loop chi2 m ca (pre @ f # post) out =
     (Inl e, out @ map drift_message (filter (categorical_drift chi2 m ca) pre))"
proof (induction pre arbitrary: out)
  case Nil
  then show ?case by simp
next
  case (Cons g pre)
  then obtain p where p: "categorical_pvalue chi2 m g = Inr p" by auto
  from Cons have rest: "\<forall>g\<in>set pre. \<exists>p. categorical_pvalue chi2 m g = Inr p" by simp
  show ?case
    by (simp add: p Cons.IH [OF rest Cons.prems(2)] categorical_drift_def on_drift_message)
qed

lemma categorical_loop_success:
  "categorical_loop chi2 m ca fs out = (Inr u, out') \<Longrightarrow>
   (\<forall>f\<in>set fs. \<exists>p. categorical_pvalue chi2 m f = Inr p) \<and>
   out' = out @ map drift_message (filter (categorical_drift chi2 m ca) fs)"
proof (induction fs arbitrary: out)
  case Nil
  then show ?case by simp
next
  case (Cons f fs)
  from Cons.prems obtain p where p: "categorical_pvalue chi2 m f = Inr p"
    by (cases "categorical_pvalue chi2 m f") auto
  with Cons.prems have
    "categorical_loop chi2 m ca fs (if p < ca then on_drift f out else out) = (Inr u, out')"
    by simp
  from Cons.IH [OF this] show ?case
    by (simp add: p categorical_drift_def on_drift_message)
qed

subsection \<open>The table of category counts\<close>

lemma map_filter_id_set: "set (List.map_filter id s) = {c. Some c \<in> set s}"
  by (induction s) (auto simp: List.map_filter_simps split: option.splits)

lemma value_counts_keys: "set (map fst (value_counts s)) = {c. Some c \<in> set s}"
  by (simp add: value_counts_def comp_def map_filter_id_set)

lemma value_counts_distinct: "distinct (map fst (value_counts s))"
  by (simp add: value_counts_def comp_def)

lemma value_counts_lookup:
  "map_of (value_counts s) c = (if Some c \<in> set s then Some (count_list s (Some c)) else None)"
proof -
  have "map_of (map (\<lambda>c. (c, count_list s (Some c))) ks) c =
        (if c \<in> set ks then Some (count_list s (Some c)) else None)" for ks
    by (induction ks) auto
  then show ?thesis
    by (simp add: value_counts_def map_filter_id_set)
qed

lemma sort_index_lookup: "map_of (sort_index (value_counts s)) = map_of (value_counts s)"
proof -
  have "distinct (map fst (sort_index (value_counts s)))"
    unfolding sort_index_def using value_counts_distinct [of s]
    by (metis distinct_map distinct_sort inj_on_def set_sort) 
  moreover have "set (sort_index (value_counts s)) = set (value_counts s)"
    by (simp add: sort_index_def)
  ultimately show ?thesis
    using map_of_inject_set value_counts_distinct by blast
qed

lemma sort_index_keys: "set (map fst (sort_index (value_counts s))) = {c. Some c \<in> set s}"
proof -
  have "set (map fst (sort_index (value_counts s))) = set (map fst (value_counts s))"
    by (simp add: sort_index_def)
  then show ?thesis
    by (simp only: value_counts_keys)
qed

lemma join_index:
  "sort (remdups (map fst (sort_index (value_counts s1)) @ map fst (sort_index (value_counts s2))))
   = categories s1 s2"
proof -
  have "set (map fst (sort_index (value_counts s1)) @ map fst (sort_index (value_counts s2)))
        = {c. Some c \<in> set s1 \<union> set s2}"
    by (simp only: set_append sort_index_keys) auto
  then show ?thesis
    unfolding categories_def by (metis sorted_list_of_set_sort_remdups)
qed

lemma count_or_zero:
  "case_option 0 id (map_of (sort_index (value_counts s)) c) = count_list s (Some c)"
  by (simp add: sort_index_lookup value_counts_lookup count_list_0_iff)

lemma contingency_table_rows:
  "contingency_table s1 s2 =
     [map (\<lambda>c. count_list s1 (Some c)) (categories s1 s2),
      map (\<lambda>c. count_list s2 (Some c)) (categories s1 s2)]"
  by (simp add: contingency_table_def Let_def fillna0_def join_outer_def join_index comp_def
      count_or_zero)

subsection \<open>The two handlers and the concrete monitor\<close>

lemma handle_numeric_completes:
  assumes "continuous_columns m \<noteq> []"
    and "\<forall>f\<in>set (continuous_columns m). \<exists>p. numeric_pvalue ks m f = Inr p"
  shows "handle_numeric ks m out =
     (Inr (), out @ map drift_message
        (filter (numeric_drift ks m (alpha m / real (length (continuous_columns m))))
           (continuous_columns m)))"
  using assms by (simp add: handle_numeric_def numeric_loop_completes)

lemma handle_categorical_completes:
  assumes "categorical_columns m \<noteq> []"
    and "\<forall>f\<in>set (categorical_columns m). \<exists>p. categorical_pvalue chi2 m f = Inr p"
  shows "handle_categorical chi2 m out =
     (Inr (), out @ map drift_message
        (filter (categorical_drift chi2 m (alpha m / real (length (categorical_columns m))))
           (categorical_columns m)))"
  using assms by (simp add: handle_categorical_def categorical_loop_completes)

lemma handle_numeric_success:
  assumes "handle_numeric ks m out = (Inr u, out')"
  shows "continuous_columns m \<noteq> [] \<and>
     (\<forall>f\<in>set (continuous_columns m). \<exists>p. numeric_pvalue ks m f = Inr p) \<and>
     out' = out @ map drift_message
        (filter (numeric_drift ks m (alpha m / real (length (continuous_columns m))))
           (continuous_columns m))"
proof (cases "continuous_columns m = []")
  case True
  with assms show ?thesis by (simp add: handle_numeric_def)
next
  case False
  with assms have "numeric_loop ks m (alpha m / real (length (continuous_columns m)))
      (continuous_columns m) out = (Inr u, out')"
    by (simp add: handle_numeric_def)
  from numeric_loop_success [OF this] False show ?thesis by simp
qed

lemma handle_categorical_success:
  assumes "handle_categorical chi2 m out = (Inr u, out')"
  shows "categorical_columns m \<noteq> [] \<and>
     (\<forall>f\<in>set (categorical_columns m). \<exists>p. categorical_pvalue chi2 m f = Inr p) \<and>
     out' = out @ map drift_message
        (filter (categorical_drift chi2 m (alpha m / real (length (categorical_columns m))))
           (categorical_columns m))"
proof (cases "categorical_columns m = []")
  case True
  with assms show ?thesis by (simp add: handle_categorical_def)
next
  case False
  with assms have "categorical_loop chi2 m (alpha m / real (length (categorical_columns m)))
      (categorical_columns m) out = (Inr u, out')"
    by (simp add: handle_categorical_def)
  from categorical_loop_success [OF this] False show ?thesis by simp
qed

lemma example_pvalues:
  "numeric_pvalue ks_example example_monitor ''price'' = Inr 0"
  "numeric_pvalue ks_example example_monitor ''beds'' = Inr 1"
  "categorical_pvalue chi2_example example_monitor ''zone'' = Inr 0"
  "categorical_pvalue chi2_example example_monitor ''room_type'' = Inr 1"
  by code_simp+

lemma example_columns:
  "continuous_columns example_monitor = [''price'', ''beds'']"
  "categorical_columns example_monitor = [''zone'', ''room_type'']"
  "alpha example_monitor = 1 / 20"
  by (simp_all add: example_monitor_def)

section \<open>The claims\<close>

text \<open>
  C1. For every valid pair of windows and feature partition (both feature lists are
  non-empty and the p-value of every listed feature can be computed), \<open>run\<close> completes
  and what it reports, one \<open>on_drift\<close> line per event, is exactly the features whose
  verdict is drift: the numeric ones in the order of the numeric list, then the
  categorical ones in the order of the categorical list.
\<close>

theorem run_reports_drifted_features_in_order:
  assumes "continuous_columns m \<noteq> []" and "categorical_columns m \<noteq> []"
    and "\<forall>f\<in>set (continuous_columns m). \<exists>p. numeric_pvalue ks m f = Inr p"
    and "\<forall>f\<in>set (categorical_columns m). \<exists>p. categorical_pvalue chi2 m f = Inr p"
  shows "run ks chi2 m out =
     (Inr (),
      out @
      map drift_message
        (filter (numeric_drift ks m (alpha m / real (length (continuous_columns m))))
           (continuous_columns m)) @
      map drift_message
        (filter (categorical_drift chi2 m (alpha m / real (length (categorical_columns m))))
           (categorical_columns m)))"
  by (simp add: run_def handle_numeric_completes [OF assms(1,3)]
      handle_categorical_completes [OF assms(2,4)])

theorem run_reports_drifted_features_in_order_witness:
  "run ks_example chi2_example example_monitor [] =
     (Inr (), [''Drift found in price!'', ''Drift found in zone!''])"
proof -
  have h1: "continuous_columns example_monitor \<noteq> []"
    and h2: "categorical_columns example_monitor \<noteq> []"
    by (simp_all add: example_columns)
  have h3: "\<forall>f\<in>set (continuous_columns example_monitor).
      \<exists>p. numeric_pvalue ks_example example_monitor f = Inr p"
    by (simp add: example_columns example_pvalues)
  have h4: "\<forall>f\<in>set (categorical_columns example_monitor).
      \<exists>p. categorical_pvalue chi2_example example_monitor f = Inr p"
    by (simp add: example_columns example_pvalues)
  show ?thesis
    using run_reports_drifted_features_in_order [OF h1 h2 h3 h4, of "[]"]
    by (simp add: example_columns example_pvalues numeric_drift_def categorical_drift_def
        drift_message_def)
qed

lemma drifted_member:
  "drift_message f \<in> set (map drift_message (filter P fs)) \<longleftrightarrow> f \<in> set fs \<and> P f"
  by (auto simp: drift_message_inject)

lemma numeric_pvalue_frames:
  "pdf1 m' = pdf1 m \<Longrightarrow> pdf2 m' = pdf2 m \<Longrightarrow> numeric_pvalue ks m' f = numeric_pvalue ks m f"
  by (simp add: numeric_pvalue_def split: sum.splits)

lemma categorical_pvalue_frames:
  "pdf1 m' = pdf1 m \<Longrightarrow> pdf2 m' = pdf2 m \<Longrightarrow>
   categorical_pvalue chi2 m' f = categorical_pvalue chi2 m f"
  by (simp add: categorical_pvalue_def split: sum.splits)

lemma numeric_loop_frames:
  "pdf1 m' = pdf1 m \<Longrightarrow> pdf2 m' = pdf2 m \<Longrightarrow>
   numeric_loop ks m' ca fs out = numeric_loop ks m ca fs out"
  by (induction fs arbitrary: out) (simp_all add: numeric_pvalue_frames [of m' m] split: sum.splits)

lemma categorical_loop_frames:
  "pdf1 m' = pdf1 m \<Longrightarrow> pdf2 m' = pdf2 m \<Longrightarrow>
   categorical_loop chi2 m' ca fs out = categorical_loop chi2 m ca fs out"
  by (induction fs arbitrary: out) (simp_all add: categorical_pvalue_frames [of m' m] split: sum.splits)

text \<open>
  C5. Within a family the threshold is the family alpha divided by the number N of
  features of that family, and every feature of the family is compared with that same
  value: after a handler has completed, a feature of its list has been reported exactly
  when its p-value is within alpha / N. The two families are corrected independently:
  the numeric handler does not depend on the categorical list, nor the categorical
  handler on the numeric list.
\<close>

theorem bonferroni_per_family:
  assumes "handle_numeric ks m [] = (Inr (), out1)"
    and "handle_categorical chi2 m [] = (Inr (), out2)"
  shows "(\<forall>f\<in>set (continuous_columns m).
            drift_message f \<in> set out1 \<longleftrightarrow>
            (\<exists>p. numeric_pvalue ks m f = Inr p \<and>
                 p \<le> alpha m / real (length (continuous_columns m)))) \<and>
         (\<forall>f\<in>set (categorical_columns m).
            drift_message f \<in> set out2 \<longleftrightarrow>
            (\<exists>p. categorical_pvalue chi2 m f = Inr p \<and>
                 p < alpha m / real (length (categorical_columns m)))) \<and>
         handle_numeric ks (m\<lparr>categorical_columns := cs\<rparr>) out = handle_numeric ks m out \<and>
         handle_categorical chi2 (m\<lparr>continuous_columns := cs\<rparr>) out =
           handle_categorical chi2 m out"
proof (intro conjI ballI)
  fix f assume f: "f \<in> set (continuous_columns m)"
  from handle_numeric_success [OF assms(1)]
  have out1: "out1 = map drift_message
      (filter (numeric_drift ks m (alpha m / real (length (continuous_columns m))))
         (continuous_columns m))"
    by simp
  show "drift_message f \<in> set out1 \<longleftrightarrow>
      (\<exists>p. numeric_pvalue ks m f = Inr p \<and> p \<le> alpha m / real (length (continuous_columns m)))"
  proof -
    have "drift_message f \<in> set out1 \<longleftrightarrow>
        numeric_drift ks m (alpha m / real (length (continuous_columns m))) f"
      using f by (simp only: out1 drifted_member simp_thms)
    also have "\<dots> \<longleftrightarrow> (\<exists>p. numeric_pvalue ks m f = Inr p \<and>
        p \<le> alpha m / real (length (continuous_columns m)))"
      by (cases "numeric_pvalue ks m f") (simp_all add: numeric_drift_def)
    finally show ?thesis .
  qed
next
  fix f assume f: "f \<in> set (categorical_columns m)"
  from handle_categorical_success [OF assms(2)]
  have out2: "out2 = map drift_message
      (filter (categorical_drift chi2 m (alpha m / real (length (categorical_columns m))))
         (categorical_columns m))"
    by simp
  show "drift_message f \<in> set out2 \<longleftrightarrow>
      (\<exists>p. categorical_pvalue chi2 m f = Inr p \<and>
           p < alpha m / real (length (categorical_columns m)))"
  proof -
    have "drift_message f \<in> set out2 \<longleftrightarrow>
        categorical_drift chi2 m (alpha m / real (length (categorical_columns m))) f"
      using f by (simp only: out2 drifted_member simp_thms)
    also have "\<dots> \<longleftrightarrow> (\<exists>p. categorical_pvalue chi2 m f = Inr p \<and>
        p < alpha m / real (length (categorical_columns m)))"
      by (cases "categorical_pvalue chi2 m f") (simp_all add: categorical_drift_def)
    finally show ?thesis .
  qed
next
  show "handle_numeric ks (m\<lparr>categorical_columns := cs\<rparr>) out = handle_numeric ks m out"
    by (simp add: handle_numeric_def numeric_loop_frames [of "m\<lparr>categorical_columns := cs\<rparr>" m])
next
  show "handle_categorical chi2 (m\<lparr>continuous_columns := cs\<rparr>) out =
      handle_categorical chi2 m out"
    by (simp add: handle_categorical_def
        categorical_loop_frames [of "m\<lparr>continuous_columns := cs\<rparr>" m])
qed

theorem bonferroni_per_family_witness:
  "handle_numeric ks_example example_monitor [] = (Inr (), [''Drift found in price!'']) \<and>
   handle_categorical chi2_example example_monitor [] = (Inr (), [''Drift found in zone!'']) \<and>
   (\<exists>p. numeric_pvalue ks_example example_monitor ''price'' = Inr p \<and> p \<le> (1 / 20) / 2) \<and>
   \<not> (\<exists>p. categorical_pvalue chi2_example example_monitor ''room_type'' = Inr p \<and>
          p < (1 / 20) / 2)"
proof -
  have h1: "handle_numeric ks_example example_monitor [] = (Inr (), [''Drift found in price!''])"
    by code_simp
  have h2: "handle_categorical chi2_example example_monitor [] =
      (Inr (), [''Drift found in zone!''])"
    by code_simp
  note b = bonferroni_per_family [OF h1 h2, of "[]" "[]"]
  have b1: "\<forall>f\<in>set (continuous_columns example_monitor).
      (drift_message f \<in> set [''Drift found in price!'']) =
      (\<exists>p. numeric_pvalue ks_example example_monitor f = Inr p \<and>
           p \<le> alpha example_monitor / real (length (continuous_columns example_monitor)))"
    using b by (rule conjunct1)
  have b2: "\<forall>f\<in>set (categorical_columns example_monitor).
      (drift_message f \<in> set [''Drift found in zone!'']) =
      (\<exists>p. categorical_pvalue chi2_example example_monitor f = Inr p \<and>
           p < alpha example_monitor / real (length (categorical_columns example_monitor)))"
    using b by (rule conjunct2 [THEN conjunct1])
  have "''price'' \<in> set (continuous_columns example_monitor)"
    by (simp add: example_columns)
  from bspec [OF b1 this]
  have p: "\<exists>p. numeric_pvalue ks_example example_monitor ''price'' = Inr p \<and> p \<le> (1 / 20) / 2"
    by (simp add: example_columns drift_message_def)
  have "''room_type'' \<in> set (categorical_columns example_monitor)"
    by (simp add: example_columns)
  from bspec [OF b2 this]
  have r: "\<not> (\<exists>p. categorical_pvalue chi2_example example_monitor ''room_type'' = Inr p \<and>
      p < (1 / 20) / 2)"
    by (simp add: example_columns drift_message_def)
  from h1 h2 p r show ?thesis
    by (intro conjI)
qed

text \<open>
  C6. The numeric verdict is \<open>p \<le> corrected_alpha\<close>, the categorical verdict is
  \<open>p < corrected_alpha\<close>; a p-value equal to the threshold is reported as drift by the
  numeric test and is not by the categorical test.
\<close>

theorem verdict_inequalities:
  assumes "numeric_pvalue ks m f = Inr p" and "categorical_pvalue chi2 m g = Inr p"
  shows "numeric_loop ks m ca [f] out = (Inr (), if p \<le> ca then on_drift f out else out) \<and>
         categorical_loop chi2 m ca [g] out = (Inr (), if p < ca then on_drift g out else out) \<and>
         (numeric_drift ks m ca f \<longleftrightarrow> p \<le> ca) \<and>
         (categorical_drift chi2 m ca g \<longleftrightarrow> p < ca) \<and>
         (p = ca \<longrightarrow>
            numeric_loop ks m ca [f] out = (Inr (), on_drift f out) \<and>
            categorical_loop chi2 m ca [g] out = (Inr (), out))"
proof (intro conjI impI)
  show n: "numeric_loop ks m ca [f] out = (Inr (), if p \<le> ca then on_drift f out else out)"
    by (simp add: assms(1))
  show c: "categorical_loop chi2 m ca [g] out = (Inr (), if p < ca then on_drift g out else out)"
    by (simp add: assms(2))
  show "numeric_drift ks m ca f \<longleftrightarrow> p \<le> ca"
    by (simp add: numeric_drift_def assms(1))
  show "categorical_drift chi2 m ca g \<longleftrightarrow> p < ca"
    by (simp add: categorical_drift_def assms(2))
  assume "p = ca"
  then show "numeric_loop ks m ca [f] out = (Inr (), on_drift f out)"
    and "categorical_loop chi2 m ca [g] out = (Inr (), out)"
    by (simp_all only: n c order_refl less_irrefl if_True if_False)
qed

theorem verdict_inequalities_witness:
  "numeric_loop (\<lambda>s1 s2. Inr (1 / 40)) example_monitor (1 / 40) [''beds''] [] =
     (Inr (), [''Drift found in beds!'']) \<and>
   categorical_loop (\<lambda>obs. Inr (1 / 40)) example_monitor (1 / 40) [''room_type''] [] =
     (Inr (), [])"
proof -
  have h1: "numeric_pvalue (\<lambda>s1 s2. Inr (1 / 40)) example_monitor ''beds'' = Inr (1 / 40)"
    by (simp add: numeric_pvalue_def getitem_def example_monitor_def window1_def window2_def)
  have h2: "categorical_pvalue (\<lambda>obs. Inr (1 / 40)) example_monitor ''room_type'' = Inr (1 / 40)"
    by (simp add: categorical_pvalue_def getitem_def example_monitor_def window1_def
        window2_def)
  show ?thesis
    using verdict_inequalities [OF h1 h2, of "1 / 40" "[]"]
    by (simp add: on_drift_def drift_message_def)
qed

subsection \<open>Empty families and the threshold\<close>

lemma handle_numeric_empty:
  "continuous_columns m = [] \<Longrightarrow> handle_numeric ks m out = (Inl ZeroDivisionError, out)"
  by (simp add: handle_numeric_def)

lemma handle_categorical_empty:
  "categorical_columns m = [] \<Longrightarrow> handle_categorical chi2 m out = (Inl ZeroDivisionError, out)"
  by (simp add: handle_categorical_def)

lemma numeric_drift_frames:
  "pdf1 m' = pdf1 m \<Longrightarrow> pdf2 m' = pdf2 m \<Longrightarrow> numeric_drift ks m' ca = numeric_drift ks m ca"
  by (rule ext) (simp add: numeric_drift_def numeric_pvalue_frames [of m' m])

lemma categorical_drift_frames:
  "pdf1 m' = pdf1 m \<Longrightarrow> pdf2 m' = pdf2 m \<Longrightarrow>
   categorical_drift chi2 m' ca = categorical_drift chi2 m ca"
  by (rule ext) (simp add: categorical_drift_def categorical_pvalue_frames [of m' m])

text \<open>
  C10 says that with an empty numeric list, or an empty categorical list, \<open>run\<close> divides
  by zero before any feature is evaluated. With an empty categorical list and a numeric
  list that is not empty this is not so: the numeric family is evaluated, and reported,
  first.
\<close>

theorem empty_family_raises_counterexample:
  "run ks_example chi2_example (example_monitor\<lparr>categorical_columns := []\<rparr>) [] =
     (Inl ZeroDivisionError, [''Drift found in price!''])"
  by code_simp

text \<open>
  C10, amended. With an empty numeric list \<open>run\<close> raises ZeroDivisionError at once:
  nothing has been evaluated or printed. With an empty categorical list it raises
  ZeroDivisionError only after the numeric family has been evaluated completely, its
  drifted features printed; and when the numeric family itself raises, the run ends with
  that exception and the division is never reached. Nothing on the way guards against an
  empty family.
\<close>

theorem empty_family_raises:
  "(continuous_columns m = [] \<longrightarrow> run ks chi2 m out = (Inl ZeroDivisionError, out)) \<and>
   (categorical_columns m = [] \<longrightarrow> handle_numeric ks m out = (Inr (), out1) \<longrightarrow>
      run ks chi2 m out = (Inl ZeroDivisionError, out1) \<and>
      out1 = out @ map drift_message
        (filter (numeric_drift ks m (alpha m / real (length (continuous_columns m))))
           (continuous_columns m))) \<and>
   (handle_numeric ks m out = (Inl e, out1) \<longrightarrow> run ks chi2 m out = (Inl e, out1))"
proof (intro conjI impI)
  assume "continuous_columns m = []"
  then show "run ks chi2 m out = (Inl ZeroDivisionError, out)"
    by (simp add: run_def handle_numeric_empty)
next
  assume c: "categorical_columns m = []" and n: "handle_numeric ks m out = (Inr (), out1)"
  show "run ks chi2 m out = (Inl ZeroDivisionError, out1)"
    by (simp add: run_def n handle_categorical_empty [OF c])
  from handle_numeric_success [OF n]
  show "out1 = out @ map drift_message
        (filter (numeric_drift ks m (alpha m / real (length (continuous_columns m))))
           (continuous_columns m))"
    by simp
next
  assume "handle_numeric ks m out = (Inl e, out1)"
  then show "run ks chi2 m out = (Inl e, out1)"
    by (simp add: run_def)
qed

theorem empty_family_raises_witness:
  "run ks_example chi2_example (example_monitor\<lparr>continuous_columns := []\<rparr>) [] =
     (Inl ZeroDivisionError, []) \<and>
   run ks_example chi2_example (example_monitor\<lparr>categorical_columns := []\<rparr>) [''start''] =
     (Inl ZeroDivisionError, [''start'', ''Drift found in price!'']) \<and>
   run ks_example chi2_example (example_monitor\<lparr>continuous_columns := [''rating'']\<rparr>) [] =
     (Inl (KeyError ''rating''), [])"
proof -
  have h1: "continuous_columns (example_monitor\<lparr>continuous_columns := []\<rparr>) = []"
    by simp
  have h2: "categorical_columns (example_monitor\<lparr>categorical_columns := []\<rparr>) = []"
    by simp
  have h3: "handle_numeric ks_example (example_monitor\<lparr>categorical_columns := []\<rparr>) [''start'']
      = (Inr (), [''start'', ''Drift found in price!''])"
    by code_simp
  have h4: "handle_numeric ks_example (example_monitor\<lparr>continuous_columns := [''rating'']\<rparr>) []
      = (Inl (KeyError ''rating''), [])"
    by code_simp
  have "run ks_example chi2_example (example_monitor\<lparr>continuous_columns := []\<rparr>) [] =
     (Inl ZeroDivisionError, [])"
    using empty_family_raises
      [of "example_monitor\<lparr>continuous_columns := []\<rparr>" ks_example chi2_example "[]"] h1
    by blast
  moreover have "run ks_example chi2_example (example_monitor\<lparr>categorical_columns := []\<rparr>)
      [''start''] = (Inl ZeroDivisionError, [''start'', ''Drift found in price!''])"
    using empty_family_raises
      [of "example_monitor\<lparr>categorical_columns := []\<rparr>" ks_example chi2_example "[''start'']"]
      h2 h3
    by blast
  moreover have "run ks_example chi2_example (example_monitor\<lparr>continuous_columns := [''rating'']\<rparr>)
      [] = (Inl (KeyError ''rating''), [])"
    using empty_family_raises
      [of "example_monitor\<lparr>continuous_columns := [''rating'']\<rparr>" ks_example chi2_example "[]"]
      h4
    by blast
  ultimately show ?thesis by (intro conjI)
qed

text \<open>
  C9 says that the corrector fails when the test count is not positive or when the
  family alpha is outside (0, 1]. The alpha is never looked at: with alpha = 2 the run
  completes, and compares every p-value with 2 / N.
\<close>

theorem alpha_not_validated_counterexample:
  "run ks_example chi2_example (example_monitor\<lparr>alpha := 2\<rparr>) [] =
     (Inr (), [''Drift found in price!'', ''Drift found in beds!'', ''Drift found in zone!''])"
  by code_simp

text \<open>
  C9, amended. The threshold computation fails exactly for an empty family, with
  Python's ZeroDivisionError (a count below zero cannot occur, it is the length of a
  list). The family alpha is not validated: for every value \<open>a\<close> of alpha whatsoever and
  a family of N > 0 features whose p-values can be computed, the handler completes and
  has compared every p-value with \<open>a / N\<close>.
\<close>

theorem corrector_fails_only_on_empty_family:
  "(continuous_columns m = [] \<longrightarrow>
      handle_numeric ks (m\<lparr>alpha := a\<rparr>) out = (Inl ZeroDivisionError, out)) \<and>
   (categorical_columns m = [] \<longrightarrow>
      handle_categorical chi2 (m\<lparr>alpha := a\<rparr>) out = (Inl ZeroDivisionError, out)) \<and>
   (continuous_columns m \<noteq> [] \<longrightarrow>
      (\<forall>f\<in>set (continuous_columns m). \<exists>p. numeric_pvalue ks m f = Inr p) \<longrightarrow>
      handle_numeric ks (m\<lparr>alpha := a\<rparr>) out =
        (Inr (), out @ map drift_message
           (filter (numeric_drift ks m (a / real (length (continuous_columns m))))
              (continuous_columns m)))) \<and>
   (categorical_columns m \<noteq> [] \<longrightarrow>
      (\<forall>f\<in>set (categorical_columns m). \<exists>p. categorical_pvalue chi2 m f = Inr p) \<longrightarrow>
      handle_categorical chi2 (m\<lparr>alpha := a\<rparr>) out =
        (Inr (), out @ map drift_message
           (filter (categorical_drift chi2 m (a / real (length (categorical_columns m))))
              (categorical_columns m))))"
proof (intro conjI impI)
  let ?m = "m\<lparr>alpha := a\<rparr>"
  have frames: "pdf1 ?m = pdf1 m" "pdf2 ?m = pdf2 m" by simp_all
  {
    assume "continuous_columns m = []"
    then show "handle_numeric ks ?m out = (Inl ZeroDivisionError, out)"
      by (simp add: handle_numeric_empty)
  }
  {
    assume "categorical_columns m = []"
    then show "handle_categorical chi2 ?m out = (Inl ZeroDivisionError, out)"
      by (simp add: handle_categorical_empty)
  }
  {
    assume ne: "continuous_columns m \<noteq> []"
      and ok: "\<forall>f\<in>set (continuous_columns m). \<exists>p. numeric_pvalue ks m f = Inr p"
    from ne have ne': "continuous_columns ?m \<noteq> []" by simp
    from ok have ok': "\<forall>f\<in>set (continuous_columns ?m). \<exists>p. numeric_pvalue ks ?m f = Inr p"
      by (simp add: numeric_pvalue_frames [OF frames])
    show "handle_numeric ks ?m out =
        (Inr (), out @ map drift_message
           (filter (numeric_drift ks m (a / real (length (continuous_columns m))))
              (continuous_columns m)))"
      using handle_numeric_completes [OF ne' ok', of out]
      by (simp add: numeric_drift_frames [OF frames])
  }
  {
    assume ne: "categorical_columns m \<noteq> []"
      and ok: "\<forall>f\<in>set (categorical_columns m). \<exists>p. categorical_pvalue chi2 m f = Inr p"
    from ne have ne': "categorical_columns ?m \<noteq> []" by simp
    from ok have ok': "\<forall>f\<in>set (categorical_columns ?m).
        \<exists>p. categorical_pvalue chi2 ?m f = Inr p"
      by (simp add: categorical_pvalue_frames [OF frames])
    show "handle_categorical chi2 ?m out =
        (Inr (), out @ map drift_message
           (filter (categorical_drift chi2 m (a / real (length (categorical_columns m))))
              (categorical_columns m)))"
      using handle_categorical_completes [OF ne' ok', of out]
      by (simp add: categorical_drift_frames [OF frames])
  }
qed

theorem corrector_fails_only_on_empty_family_witness:
  "handle_numeric ks_example (example_monitor\<lparr>continuous_columns := [], alpha := 2\<rparr>) [] =
     (Inl ZeroDivisionError, []) \<and>
   handle_categorical chi2_example (example_monitor\<lparr>categorical_columns := [], alpha := 2\<rparr>) [] =
     (Inl ZeroDivisionError, []) \<and>
   handle_numeric ks_example (example_monitor\<lparr>alpha := 2\<rparr>) [] =
     (Inr (), [''Drift found in price!'', ''Drift found in beds!'']) \<and>
   handle_categorical chi2_example (example_monitor\<lparr>alpha := 2\<rparr>) [] =
     (Inr (), [''Drift found in zone!''])"
proof -
  have h3: "\<forall>f\<in>set (continuous_columns example_monitor).
      \<exists>p. numeric_pvalue ks_example example_monitor f = Inr p"
    by (simp add: example_columns example_pvalues)
  have h4: "\<forall>f\<in>set (categorical_columns example_monitor).
      \<exists>p. categorical_pvalue chi2_example example_monitor f = Inr p"
    by (simp add: example_columns example_pvalues)
  have "handle_numeric ks_example (example_monitor\<lparr>continuous_columns := [], alpha := 2\<rparr>) [] =
     (Inl ZeroDivisionError, [])"
    using corrector_fails_only_on_empty_family
      [of "example_monitor\<lparr>continuous_columns := []\<rparr>" ks_example 2 "[]"]
    by simp
  moreover have "handle_categorical chi2_example
      (example_monitor\<lparr>categorical_columns := [], alpha := 2\<rparr>) [] = (Inl ZeroDivisionError, [])"
    using corrector_fails_only_on_empty_family
      [of "example_monitor\<lparr>categorical_columns := []\<rparr>" _ 2 "[]" chi2_example]
    by simp
  moreover have "handle_numeric ks_example (example_monitor\<lparr>alpha := 2\<rparr>) [] =
     (Inr (), [''Drift found in price!'', ''Drift found in beds!''])"
    using corrector_fails_only_on_empty_family [of example_monitor ks_example 2 "[]"] h3
    by (simp add: example_columns example_pvalues numeric_drift_def drift_message_def)
  moreover have "handle_categorical chi2_example (example_monitor\<lparr>alpha := 2\<rparr>) [] =
     (Inr (), [''Drift found in zone!''])"
    using corrector_fails_only_on_empty_family [of example_monitor _ 2 "[]" chi2_example] h4
    by (simp add: example_columns example_pvalues categorical_drift_def drift_message_def)
  ultimately show ?thesis by (intro conjI)
qed

subsection \<open>Exceptions during a run\<close>

lemma getitem_absent: "f \<notin> set (columns df) \<Longrightarrow> getitem df f = Inl (KeyError f)"
  by (simp add: getitem_def columns_def map_of_eq_None_iff [THEN iffD2])

lemma getitem_raises: "getitem df f = Inl e \<Longrightarrow> e = KeyError f"
  by (simp add: getitem_def split: option.splits)

lemma numeric_pvalue_absent:
  assumes "f \<notin> set (columns (pdf1 m)) \<or> f \<notin> set (columns (pdf2 m))"
  shows "numeric_pvalue ks m f = Inl (KeyError f)"
proof (cases "getitem (pdf1 m) f")
  case (Inl e)
  then show ?thesis
    by (simp add: numeric_pvalue_def getitem_raises [OF Inl])
next
  case (Inr s1)
  then have "f \<in> set (columns (pdf1 m))"
    using getitem_absent [of f "pdf1 m"] by auto
  with assms have "getitem (pdf2 m) f = Inl (KeyError f)"
    by (simp add: getitem_absent)
  with Inr show ?thesis
    by (simp add: numeric_pvalue_def)
qed

lemma categorical_pvalue_absent:
  assumes "f \<notin> set (columns (pdf1 m)) \<or> f \<notin> set (columns (pdf2 m))"
  shows "categorical_pvalue chi2 m f = Inl (KeyError f)"
proof (cases "getitem (pdf1 m) f")
  case (Inl e)
  then show ?thesis
    by (simp add: categorical_pvalue_def getitem_raises [OF Inl])
next
  case (Inr s1)
  then have "f \<in> set (columns (pdf1 m))"
    using getitem_absent [of f "pdf1 m"] by auto
  with assms have "getitem (pdf2 m) f = Inl (KeyError f)"
    by (simp add: getitem_absent)
  with Inr show ?thesis
    by (simp add: categorical_pvalue_def)
qed

text \<open>The first feature whose p-value cannot be computed ends the run.\<close>

lemma run_numeric_raises:
  assumes "continuous_columns m = pre @ f # post"
    and "\<forall>g\<in>set pre. \<exists>p. numeric_pvalue ks m g = Inr p"
    and "numeric_pvalue ks m f = Inl e"
  shows "run ks chi2 m out =
     (Inl e, out @ map drift_message
        (filter (numeric_drift ks m (alpha m / real (length (continuous_columns m)))) pre))"
proof -
  have "handle_numeric ks m out =
     (Inl e, out @ map drift_message
        (filter (numeric_drift ks m (alpha m / real (length (continuous_columns m)))) pre))"
    using numeric_loop_raises [OF assms(2,3), of _ post out]
    by (simp add: handle_numeric_def assms(1))
  then show ?thesis
    by (simp add: run_def)
qed

lemma run_categorical_raises:
  assumes "handle_numeric ks m out = (Inr (), out1)"
    and "categorical_columns m = pre @ f # post"
    and "\<forall>g\<in>set pre. \<exists>p. categorical_pvalue chi2 m g = Inr p"
    and "categorical_pvalue chi2 m f = Inl e"
  shows "run ks chi2 m out =
     (Inl e, out1 @ map drift_message
        (filter (categorical_drift chi2 m (alpha m / real (length (categorical_columns m))))
           pre))"
proof -
  have "handle_categorical chi2 m out1 =
     (Inl e, out1 @ map drift_message
        (filter (categorical_drift chi2 m (alpha m / real (length (categorical_columns m))))
           pre))"
    using categorical_loop_raises [OF assms(3,4), of _ post out1]
    by (simp add: handle_categorical_def assms(2))
  then show ?thesis
    by (simp add: run_def assms(1))
qed

text \<open>
  C2 says that a run over windows whose schemas differ, or with a listed feature that
  is absent from a window, fails before any statistical test executes and never leaves
  partial results. The constructor only compares the two column indexes; the feature
  lists are not checked. With \<open>rating\<close> listed after \<open>price\<close> and absent from both
  windows, the monitor is built, the price test runs and its drift is printed, and only
  then the lookup of \<open>rating\<close> raises KeyError.
\<close>

theorem absent_feature_counterexample:
  "drift_monitor_run ks_example chi2_example window1 window2 [''zone''] [''price'', ''rating'']
     (1 / 20) = (Inl (KeyError ''rating''), [''Drift found in price!''])"
  by code_simp

text \<open>
  C2, amended. When the column indexes of the two windows differ, the constructor fails,
  with ValueError when the numbers of columns differ and with AssertionError otherwise,
  so no test executes and nothing is printed; when they are equal the monitor is built whatever the
  feature lists are. A listed feature that is not a column of one of the windows makes
  \<open>run\<close> fail with KeyError for that feature when the loop reaches it: the features
  before it in its list have been tested and their drift printed, and for a categorical
  feature the whole numeric family has been handled before.
\<close>

theorem schema_failures:
  "(length (columns p1) \<noteq> length (columns p2) \<longrightarrow>
      Monitor_init p1 p2 cat_cols num_cols a = Inl ValueError \<and>
      drift_monitor_run ks chi2 p1 p2 cat_cols num_cols a = (Inl ValueError, [])) \<and>
   (length (columns p1) = length (columns p2) \<longrightarrow> columns p1 \<noteq> columns p2 \<longrightarrow>
      Monitor_init p1 p2 cat_cols num_cols a = Inl AssertionError \<and>
      drift_monitor_run ks chi2 p1 p2 cat_cols num_cols a = (Inl AssertionError, [])) \<and>
   (columns p1 = columns p2 \<longrightarrow>
      Monitor_init p1 p2 cat_cols num_cols a =
        Inr \<lparr>pdf1 = p1, pdf2 = p2, alpha = a,
             categorical_columns = cat_cols, continuous_columns = num_cols\<rparr>) \<and>
   (continuous_columns m = pre @ f # post \<longrightarrow>
      f \<notin> set (columns (pdf1 m)) \<or> f \<notin> set (columns (pdf2 m)) \<longrightarrow>
      (\<forall>g\<in>set pre. \<exists>p. numeric_pvalue ks m g = Inr p) \<longrightarrow>
      run ks chi2 m out =
        (Inl (KeyError f), out @ map drift_message
           (filter (numeric_drift ks m (alpha m / real (length (continuous_columns m)))) pre))) \<and>
   (categorical_columns m = pre @ f # post \<longrightarrow>
      f \<notin> set (columns (pdf1 m)) \<or> f \<notin> set (columns (pdf2 m)) \<longrightarrow>
      handle_numeric ks m out = (Inr (), out1) \<longrightarrow>
      (\<forall>g\<in>set pre. \<exists>p. categorical_pvalue chi2 m g = Inr p) \<longrightarrow>
      run ks chi2 m out =
        (Inl (KeyError f), out1 @ map drift_message
           (filter (categorical_drift chi2 m (alpha m / real (length (categorical_columns m))))
              pre)))"
proof (intro conjI impI)
  assume "length (columns p1) \<noteq> length (columns p2)"
  then show "Monitor_init p1 p2 cat_cols num_cols a = Inl ValueError"
    and "drift_monitor_run ks chi2 p1 p2 cat_cols num_cols a = (Inl ValueError, [])"
    by (simp_all add: Monitor_init_def drift_monitor_run_def)
next
  assume "length (columns p1) = length (columns p2)" and "columns p1 \<noteq> columns p2"
  then show "Monitor_init p1 p2 cat_cols num_cols a = Inl AssertionError"
    and "drift_monitor_run ks chi2 p1 p2 cat_cols num_cols a = (Inl AssertionError, [])"
    by (simp_all add: Monitor_init_def drift_monitor_run_def)
next
  assume "columns p1 = columns p2"
  then show "Monitor_init p1 p2 cat_cols num_cols a =
      Inr \<lparr>pdf1 = p1, pdf2 = p2, alpha = a,
           categorical_columns = cat_cols, continuous_columns = num_cols\<rparr>"
    by (simp add: Monitor_init_def)
next
  assume cols: "continuous_columns m = pre @ f # post"
    and absent: "f \<notin> set (columns (pdf1 m)) \<or> f \<notin> set (columns (pdf2 m))"
    and pre: "\<forall>g\<in>set pre. \<exists>p. numeric_pvalue ks m g = Inr p"
  from run_numeric_raises [OF cols pre numeric_pvalue_absent [OF absent]] show "run ks chi2 m out =
      (Inl (KeyError f), out @ map drift_message
         (filter (numeric_drift ks m (alpha m / real (length (continuous_columns m)))) pre))" .
next
  assume cols: "categorical_columns m = pre @ f # post"
    and absent: "f \<notin> set (columns (pdf1 m)) \<or> f \<notin> set (columns (pdf2 m))"
    and num: "handle_numeric ks m out = (Inr (), out1)"
    and pre: "\<forall>g\<in>set pre. \<exists>p. categorical_pvalue chi2 m g = Inr p"
  from run_categorical_raises [OF num cols pre categorical_pvalue_absent [OF absent]] show "run ks chi2 m out =
      (Inl (KeyError f), out1 @ map drift_message
         (filter (categorical_drift chi2 m (alpha m / real (length (categorical_columns m))))
            pre))" .
qed

theorem schema_failures_witness:
  "drift_monitor_run ks_example chi2_example window1 (tl window2) [''zone''] [''price'']
     (1 / 20) = (Inl ValueError, []) \<and>
   drift_monitor_run ks_example chi2_example [(''price'', [Some 100])] [(''cost'', [Some 200])]
     [] [''price''] (1 / 20) = (Inl AssertionError, []) \<and>
   Monitor_init window1 window2 [''zone''] [''price'', ''rating''] (1 / 20) =
     Inr \<lparr>pdf1 = window1, pdf2 = window2, alpha = 1 / 20,
          categorical_columns = [''zone''], continuous_columns = [''price'', ''rating'']\<rparr> \<and>
   run ks_example chi2_example
     (example_monitor\<lparr>continuous_columns := [''price'', ''rating'', ''beds'']\<rparr>) [] =
     (Inl (KeyError ''rating''), [''Drift found in price!'']) \<and>
   run ks_example chi2_example
     (example_monitor\<lparr>categorical_columns := [''zone'', ''district'', ''room_type'']\<rparr>) [] =
     (Inl (KeyError ''district''), [''Drift found in price!'', ''Drift found in zone!''])"
proof -
  let ?n = "example_monitor\<lparr>continuous_columns := [''price'', ''rating'', ''beds'']\<rparr>"
  let ?c = "example_monitor\<lparr>categorical_columns := [''zone'', ''district'', ''room_type'']\<rparr>"
  let ?p = "[(''price'', [Some (100::int)])]"
  let ?q = "[(''cost'', [Some (200::int)])]"
  have d: "length (columns window1) \<noteq> length (columns (tl window2))"
    by (simp add: columns_def window1_def window2_def)
  have s: "length (columns ?p) = length (columns ?q)" and r: "columns ?p \<noteq> columns ?q"
    by (simp_all add: columns_def)
  have e: "columns window1 = columns window2"
    by (simp add: columns_def window1_def window2_def)
  have n1: "continuous_columns ?n = [''price''] @ ''rating'' # [''beds'']"
    by simp
  have n2: "''rating'' \<notin> set (columns (pdf1 ?n)) \<or> ''rating'' \<notin> set (columns (pdf2 ?n))"
    by (simp add: example_monitor_def columns_def window1_def)
  have n3: "\<forall>g\<in>set [''price'']. \<exists>p. numeric_pvalue ks_example ?n g = Inr p"
    by (simp add: numeric_pvalue_frames [of ?n example_monitor] example_pvalues)
  have c1: "categorical_columns ?c = [''zone''] @ ''district'' # [''room_type'']"
    by simp
  have c2: "''district'' \<notin> set (columns (pdf1 ?c)) \<or> ''district'' \<notin> set (columns (pdf2 ?c))"
    by (simp add: example_monitor_def columns_def window1_def)
  have c3: "handle_numeric ks_example ?c [] = (Inr (), [''Drift found in price!''])"
    by code_simp
  have c4: "\<forall>g\<in>set [''zone'']. \<exists>p. categorical_pvalue chi2_example ?c g = Inr p"
    by (simp add: categorical_pvalue_frames [of ?c example_monitor] example_pvalues)
  note t = schema_failures
  have "drift_monitor_run ks_example chi2_example window1 (tl window2) [''zone''] [''price'']
     (1 / 20) = (Inl ValueError, [])"
    using t [where ?p1.0 = window1 and ?p2.0 = "tl window2" and cat_cols = "[''zone'']"
        and num_cols = "[''price'']" and a = "1 / 20" and ks = ks_example
        and ?chi2.0 = chi2_example] d
    by blast
  moreover have "drift_monitor_run ks_example chi2_example ?p ?q [] [''price''] (1 / 20) =
     (Inl AssertionError, [])"
    using t [where ?p1.0 = ?p and ?p2.0 = ?q and cat_cols = "[]" and num_cols = "[''price'']"
        and a = "1 / 20" and ks = ks_example and ?chi2.0 = chi2_example] s r
    by blast
  moreover have "Monitor_init window1 window2 [''zone''] [''price'', ''rating''] (1 / 20) =
     Inr \<lparr>pdf1 = window1, pdf2 = window2, alpha = 1 / 20,
          categorical_columns = [''zone''], continuous_columns = [''price'', ''rating'']\<rparr>"
    using t [where ?p1.0 = window1 and ?p2.0 = window2 and cat_cols = "[''zone'']"
        and num_cols = "[''price'', ''rating'']" and a = "1 / 20"] e
    by blast
  moreover have "run ks_example chi2_example ?n [] =
     (Inl (KeyError ''rating''), [''Drift found in price!''])"
  proof -
    from t [where ks = ks_example and ?chi2.0 = chi2_example and m = ?n and pre = "[''price'']"
        and f = "''rating''" and post = "[''beds'']" and out = "[]"]
      n1 n2 n3
    have "run ks_example chi2_example ?n [] =
        (Inl (KeyError ''rating''), [] @ map drift_message
           (filter (numeric_drift ks_example ?n (alpha ?n / real (length (continuous_columns ?n))))
              [''price'']))"
      by blast
    also have "\<dots> = (Inl (KeyError ''rating''), [''Drift found in price!''])"
      by (simp add: numeric_drift_def numeric_pvalue_frames [of ?n example_monitor]
          example_pvalues example_columns drift_message_def)
    finally show ?thesis .
  qed
  moreover have "run ks_example chi2_example ?c [] =
     (Inl (KeyError ''district''), [''Drift found in price!'', ''Drift found in zone!''])"
  proof -
    from t [where ks = ks_example and ?chi2.0 = chi2_example and m = ?c and pre = "[''zone'']"
        and f = "''district''" and post = "[''room_type'']" and out = "[]"
        and ?out1.0 = "[''Drift found in price!'']"]
      c1 c2 c3 c4
    have "run ks_example chi2_example ?c [] =
        (Inl (KeyError ''district''), [''Drift found in price!''] @ map drift_message
           (filter (categorical_drift chi2_example ?c
              (alpha ?c / real (length (categorical_columns ?c)))) [''zone'']))"
      by blast
    also have "\<dots> =
        (Inl (KeyError ''district''), [''Drift found in price!'', ''Drift found in zone!''])"
      by (simp add: categorical_drift_def categorical_pvalue_frames [of ?c example_monitor]
          example_pvalues example_columns drift_message_def)
    finally show ?thesis .
  qed
  ultimately show ?thesis by (intro conjI)
qed

text \<open>
  C3 says that a feature with insufficient data makes its comparator fail, and that the
  orchestrator catches the failure, records the feature as skipped and goes on with the
  remaining features. The class has no check of the data and no exception handler.
  The categorical feature \<open>reviews\<close> has no observation in the second window, so its row
  of the table is all zeros and the independence test raises ValueError: the run
  ends with that exception, \<open>room_type\<close> is never evaluated. The same feature taken as
  numeric does not fail at all: the test returns p = 0 for the all-null sample and the
  feature is reported as drifted.
\<close>

theorem comparator_failure_counterexample:
  "run ks_example chi2_example
     (example_monitor\<lparr>continuous_columns := [''beds''],
        categorical_columns := [''reviews'', ''room_type'']\<rparr>) [] = (Inl ValueError, []) \<and>
   categorical_pvalue chi2_example example_monitor ''reviews'' = Inl ValueError \<and>
   numeric_pvalue ks_example example_monitor ''reviews'' = Inr 0 \<and>
   handle_numeric ks_example (example_monitor\<lparr>continuous_columns := [''reviews'']\<rparr>) [] =
     (Inr (), [''Drift found in reviews!''])"
  by code_simp

text \<open>
  C3, amended. The monitor makes no check of its own for insufficient data: a comparator
  hands the two columns of the feature (the categorical one their table of counts) to
  the library test as they are, and the outcome of the feature is the outcome of the
  test. When the test returns a p-value the feature gets its ordinary verdict, whatever
  the columns hold. When the test raises, the exception is not caught: it ends \<open>run\<close>,
  which has printed the drift of the features evaluated before and evaluates none of
  the features after it (the result does not depend on them); nothing records the
  feature as skipped.
\<close>

theorem comparator_failure_ends_run:
  "(getitem (pdf1 m) f = Inr s1 \<longrightarrow> getitem (pdf2 m) f = Inr s2 \<longrightarrow>
      numeric_pvalue ks m f = ks s1 s2 \<and>
      categorical_pvalue chi2 m f = chi2 (contingency_table s1 s2) \<and>
      (ks s1 s2 = Inr p \<longrightarrow>
         numeric_loop ks m ca [f] out = (Inr (), if p \<le> ca then on_drift f out else out)) \<and>
      (chi2 (contingency_table s1 s2) = Inr p \<longrightarrow>
         categorical_loop chi2 m ca [f] out =
           (Inr (), if p < ca then on_drift f out else out))) \<and>
   (continuous_columns m = pre @ f # post \<longrightarrow>
      getitem (pdf1 m) f = Inr s1 \<longrightarrow> getitem (pdf2 m) f = Inr s2 \<longrightarrow> ks s1 s2 = Inl e \<longrightarrow>
      (\<forall>g\<in>set pre. \<exists>p. numeric_pvalue ks m g = Inr p) \<longrightarrow>
      run ks chi2 m out =
        (Inl e, out @ map drift_message
           (filter (numeric_drift ks m (alpha m / real (length (continuous_columns m)))) pre))) \<and>
   (categorical_columns m = pre @ f # post \<longrightarrow>
      getitem (pdf1 m) f = Inr s1 \<longrightarrow> getitem (pdf2 m) f = Inr s2 \<longrightarrow>
      chi2 (contingency_table s1 s2) = Inl e \<longrightarrow>
      handle_numeric ks m out = (Inr (), out1) \<longrightarrow>
      (\<forall>g\<in>set pre. \<exists>p. categorical_pvalue chi2 m g = Inr p) \<longrightarrow>
      run ks chi2 m out =
        (Inl e, out1 @ map drift_message
           (filter (categorical_drift chi2 m (alpha m / real (length (categorical_columns m))))
              pre)))"
proof (intro conjI impI)
  assume g: "getitem (pdf1 m) f = Inr s1" "getitem (pdf2 m) f = Inr s2"
  then show n: "numeric_pvalue ks m f = ks s1 s2"
    by (simp add: numeric_pvalue_def)
  from g show c: "categorical_pvalue chi2 m f = chi2 (contingency_table s1 s2)"
    by (simp add: categorical_pvalue_def)
  {
    assume "ks s1 s2 = Inr p"
    then show "numeric_loop ks m ca [f] out = (Inr (), if p \<le> ca then on_drift f out else out)"
      by (simp add: n)
  }
  {
    assume "chi2 (contingency_table s1 s2) = Inr p"
    then show "categorical_loop chi2 m ca [f] out =
        (Inr (), if p < ca then on_drift f out else out)"
      by (simp add: c)
  }
next
  assume cols: "continuous_columns m = pre @ f # post"
    and pre: "\<forall>g\<in>set pre. \<exists>p. numeric_pvalue ks m g = Inr p"
    and "getitem (pdf1 m) f = Inr s1" "getitem (pdf2 m) f = Inr s2" "ks s1 s2 = Inl e"
  then have "numeric_pvalue ks m f = Inl e"
    by (simp add: numeric_pvalue_def)
  from run_numeric_raises [OF cols pre this]
  show "run ks chi2 m out =
      (Inl e, out @ map drift_message
         (filter (numeric_drift ks m (alpha m / real (length (continuous_columns m)))) pre))" .
next
  assume cols: "categorical_columns m = pre @ f # post"
    and num: "handle_numeric ks m out = (Inr (), out1)"
    and pre: "\<forall>g\<in>set pre. \<exists>p. categorical_pvalue chi2 m g = Inr p"
    and "getitem (pdf1 m) f = Inr s1" "getitem (pdf2 m) f = Inr s2"
      "chi2 (contingency_table s1 s2) = Inl e"
  then have "categorical_pvalue chi2 m f = Inl e"
    by (simp add: categorical_pvalue_def)
  from run_categorical_raises [OF num cols pre this]
  show "run ks chi2 m out =
      (Inl e, out1 @ map drift_message
         (filter (categorical_drift chi2 m (alpha m / real (length (categorical_columns m))))
            pre))" .
qed

theorem comparator_failure_ends_run_witness:
  "numeric_loop ks_example example_monitor (1 / 20) [''reviews''] [] =
     (Inr (), [''Drift found in reviews!'']) \<and>
   categorical_loop chi2_example example_monitor (1 / 40) [''room_type''] [] = (Inr (), []) \<and>
   run ks_example chi2_example
     (example_monitor\<lparr>continuous_columns := [''reviews'', ''beds''],
        categorical_columns := [''room_type'', ''reviews'', ''zone'']\<rparr>) [] =
     (Inl ValueError, [''Drift found in reviews!'']) \<and>
   run ks_example chi2_example
     (example_monitor\<lparr>pdf2 := no_rows, continuous_columns := [''beds'', ''price'']\<rparr>) [] =
     (Inl ValueError, [])"
proof -
  let ?m = example_monitor
  let ?c = "example_monitor\<lparr>continuous_columns := [''reviews'', ''beds''],
      categorical_columns := [''room_type'', ''reviews'', ''zone'']\<rparr>"
  let ?e = "example_monitor\<lparr>pdf2 := no_rows, continuous_columns := [''beds'', ''price'']\<rparr>"
  let ?s1 = "[Some 5, Some 6, Some (7::int)]"
  let ?s2 = "[None, None, None :: int option]"
  let ?t1 = "[Some 0, Some 1, Some (1::int)]"
  let ?b1 = "[Some 1, Some 2, Some (2::int)]"
  note t = comparator_failure_ends_run
  have g1: "getitem (pdf1 ?m) ''reviews'' = Inr ?s1"
    and g2: "getitem (pdf2 ?m) ''reviews'' = Inr ?s2"
    and r1: "getitem (pdf1 ?m) ''room_type'' = Inr ?t1"
    and r2: "getitem (pdf2 ?m) ''room_type'' = Inr ?t1"
    by (simp_all add: getitem_def example_monitor_def window1_def window2_def)
  have ks: "ks_example ?s1 ?s2 = Inr 0"
    by code_simp
  have same: "chi2_example (contingency_table ?t1 ?t1) = Inr 1"
    by code_simp
  have chi2: "chi2_example (contingency_table ?s1 ?s2) = Inl ValueError"
    by code_simp
  have "numeric_loop ks_example ?m (1 / 20) [''reviews''] [] =
     (Inr (), [''Drift found in reviews!''])"
    using t [where m = ?m and f = "''reviews''" and ?s1.0 = ?s1 and ?s2.0 = ?s2
        and ks = ks_example and p = 0 and ca = "1 / 20" and out = "[]",
        THEN conjunct1, THEN mp, THEN mp, OF g1 g2,
        THEN conjunct2, THEN conjunct2, THEN conjunct1, THEN mp, OF ks]
    by (simp add: on_drift_def drift_message_def)
  moreover have "categorical_loop chi2_example ?m (1 / 40) [''room_type''] [] = (Inr (), [])"
    using t [where m = ?m and f = "''room_type''" and ?s1.0 = ?t1 and ?s2.0 = ?t1
        and ?chi2.0 = chi2_example and p = 1 and ca = "1 / 40" and out = "[]",
        THEN conjunct1, THEN mp, THEN mp, OF r1 r2,
        THEN conjunct2, THEN conjunct2, THEN conjunct2, THEN mp, OF same]
    by simp
  moreover have "run ks_example chi2_example ?c [] =
     (Inl ValueError, [''Drift found in reviews!''])"
  proof -
    have c1: "categorical_columns ?c = [''room_type''] @ ''reviews'' # [''zone'']"
      by simp
    have c3: "handle_numeric ks_example ?c [] = (Inr (), [''Drift found in reviews!''])"
      by code_simp
    have c4: "\<forall>g\<in>set [''room_type'']. \<exists>p. categorical_pvalue chi2_example ?c g = Inr p"
      by (simp add: categorical_pvalue_frames [of ?c example_monitor] example_pvalues)
    have g1': "getitem (pdf1 ?c) ''reviews'' = Inr ?s1"
      and g2': "getitem (pdf2 ?c) ''reviews'' = Inr ?s2"
      using g1 g2 by simp_all
    from t [where ks = ks_example and ?chi2.0 = chi2_example and m = ?c
        and pre = "[''room_type'']" and f = "''reviews''" and post = "[''zone'']" and out = "[]"
        and ?s1.0 = ?s1 and ?s2.0 = ?s2 and e = ValueError
        and ?out1.0 = "[''Drift found in reviews!'']",
        THEN conjunct2, THEN conjunct2, THEN mp, THEN mp, THEN mp, THEN mp, THEN mp, THEN mp,
        OF c1 g1' g2' chi2 c3 c4]
    have "run ks_example chi2_example ?c [] =
        (Inl ValueError, [''Drift found in reviews!''] @ map drift_message
           (filter (categorical_drift chi2_example ?c
              (alpha ?c / real (length (categorical_columns ?c)))) [''room_type'']))" .
    also have "\<dots> = (Inl ValueError, [''Drift found in reviews!''])"
      by (simp add: categorical_drift_def categorical_pvalue_frames [of ?c example_monitor]
          example_pvalues example_columns)
    finally show ?thesis .
  qed
  moreover have "run ks_example chi2_example ?e [] = (Inl ValueError, [])"
  proof -
    have e1: "continuous_columns ?e = [] @ ''beds'' # [''price'']"
      by simp
    have b1: "getitem (pdf1 ?e) ''beds'' = Inr ?b1"
      and b2: "getitem (pdf2 ?e) ''beds'' = Inr []"
      by (simp_all add: getitem_def example_monitor_def window1_def no_rows_def)
    have raises: "ks_example ?b1 [] = Inl ValueError"
      by code_simp
    have e4: "\<forall>g\<in>set []. \<exists>p. numeric_pvalue ks_example ?e g = Inr p"
      by simp
    from t [where ks = ks_example and ?chi2.0 = chi2_example and m = ?e and pre = "[]"
        and f = "''beds''" and post = "[''price'']" and out = "[]" and ?s1.0 = ?b1
        and ?s2.0 = "[]" and e = ValueError,
        THEN conjunct2, THEN conjunct1, THEN mp, THEN mp, THEN mp, THEN mp, THEN mp,
        OF e1 b1 b2 raises e4]
    show ?thesis
      by simp
  qed
  ultimately show ?thesis by (intro conjI)
qed

subsection \<open>Categories and counts\<close>

lemma categories_finite: "finite {c. Some c \<in> set s1 \<union> set s2}"
proof -
  have "{c. Some c \<in> set s1 \<union> set s2} = set (List.map_filter id (s1 @ s2))"
    by (simp add: map_filter_id_set)
  then show ?thesis
    by (simp only: finite_set)
qed

lemma categories_sorted_remdups:
  "categories s1 s2 = sort (remdups (List.map_filter id (s1 @ s2)))"
proof -
  have "{c. Some c \<in> set s1 \<union> set s2} = set (List.map_filter id (s1 @ s2))"
    by (simp add: map_filter_id_set)
  then show ?thesis
    by (simp only: categories_def sorted_list_of_set_sort_remdups)
qed

lemma categories_set: "set (categories s1 s2) = {c. Some c \<in> set s1} \<union> {c. Some c \<in> set s2}"
  using categories_finite [of s1 s2] by (auto simp: categories_def)

lemma categories_length:
  "length (categories s1 s2) = card ({c. Some c \<in> set s1} \<union> {c. Some c \<in> set s2})"
proof -
  have "{c. Some c \<in> set s1} \<union> {c. Some c \<in> set s2} = {c. Some c \<in> set s1 \<union> set s2}"
    by auto
  then show ?thesis
    by (simp add: categories_def)
qed

text \<open>
  C8. What the categorical comparator hands to the independence test is the table of
  counts of the two columns of the feature. That table has two rows, one per window, and one
  column for every category observed in either window (the union, in ascending order);
  an entry is the number of occurrences of the category in the window, hence 0 for a
  category that the window lacks. The categories of pandas are the non-null values.
\<close>

theorem contingency_table_shape:
  "(getitem (pdf1 m) feature = Inr s1 \<longrightarrow> getitem (pdf2 m) feature = Inr s2 \<longrightarrow>
      categorical_pvalue chi2 m feature = chi2 (contingency_table s1 s2)) \<and>
   contingency_table s1 s2 =
     [map (\<lambda>c. count_list s1 (Some c)) (categories s1 s2),
      map (\<lambda>c. count_list s2 (Some c)) (categories s1 s2)] \<and>
   set (categories s1 s2) = {c. Some c \<in> set s1} \<union> {c. Some c \<in> set s2} \<and>
   distinct (categories s1 s2) \<and> sorted (categories s1 s2) \<and>
   length (contingency_table s1 s2) = 2 \<and>
   (\<forall>row\<in>set (contingency_table s1 s2).
      length row = card ({c. Some c \<in> set s1} \<union> {c. Some c \<in> set s2})) \<and>
   (\<forall>i<length (categories s1 s2).
      (Some (categories s1 s2 ! i) \<notin> set s1 \<longrightarrow> contingency_table s1 s2 ! 0 ! i = 0) \<and>
      (Some (categories s1 s2 ! i) \<notin> set s2 \<longrightarrow> contingency_table s1 s2 ! 1 ! i = 0))"
proof (intro conjI impI)
  assume "getitem (pdf1 m) feature = Inr s1" and "getitem (pdf2 m) feature = Inr s2"
  then show "categorical_pvalue chi2 m feature = chi2 (contingency_table s1 s2)"
    by (simp add: categorical_pvalue_def)
next
  show "contingency_table s1 s2 =
     [map (\<lambda>c. count_list s1 (Some c)) (categories s1 s2),
      map (\<lambda>c. count_list s2 (Some c)) (categories s1 s2)]"
    by (rule contingency_table_rows)
  show "set (categories s1 s2) = {c. Some c \<in> set s1} \<union> {c. Some c \<in> set s2}"
    by (rule categories_set)
  show "distinct (categories s1 s2)" and "sorted (categories s1 s2)"
    by (simp_all add: categories_def)
  show "length (contingency_table s1 s2) = 2"
    by (simp add: contingency_table_rows)
  show "\<forall>row\<in>set (contingency_table s1 s2).
      length row = card ({c. Some c \<in> set s1} \<union> {c. Some c \<in> set s2})"
    by (simp add: contingency_table_rows categories_length)
  show "\<forall>i<length (categories s1 s2).
      (Some (categories s1 s2 ! i) \<notin> set s1 \<longrightarrow> contingency_table s1 s2 ! 0 ! i = 0) \<and>
      (Some (categories s1 s2 ! i) \<notin> set s2 \<longrightarrow> contingency_table s1 s2 ! 1 ! i = 0)"
    by (simp add: contingency_table_rows count_list_0_iff)
qed

theorem contingency_table_shape_witness:
  "categorical_pvalue chi2_example example_monitor ''zone'' = chi2_example [[2, 1], [1, 0]] \<and>
   contingency_table [Some 3, Some 3, Some 4] [Some (5::int), Some 3] = [[2, 1, 0], [1, 0, 1]] \<and>
   categories [Some 3, Some 3, Some 4] [Some (5::int), Some 3] = [3, 4, 5] \<and>
   contingency_table [Some 3, Some 3, Some 4] [Some (5::int), Some 3] ! 0 ! 2 = 0"
proof -
  let ?a = "[Some 3, Some 3, Some (4::int)]"
  let ?b = "[Some (5::int), Some 3]"
  let ?z = "[Some (3::int), None, None]"
  have g1: "getitem (pdf1 example_monitor) ''zone'' = Inr ?a"
    and g2: "getitem (pdf2 example_monitor) ''zone'' = Inr ?z"
    by (simp_all add: getitem_def example_monitor_def window1_def window2_def)
  have zone_cats: "categories ?a ?z = [3, 4]"
    unfolding categories_sorted_remdups by code_simp
  note z = contingency_table_shape [where m = example_monitor and feature = "''zone''"
      and ?s1.0 = ?a and ?s2.0 = ?z and ?chi2.0 = chi2_example]
  from z [THEN conjunct1, THEN mp, THEN mp, OF g1 g2]
  have "categorical_pvalue chi2_example example_monitor ''zone'' =
      chi2_example (contingency_table ?a ?z)" .
  also from z [THEN conjunct2, THEN conjunct1]
  have "contingency_table ?a ?z = [[2, 1], [1, 0]]"
    by (simp add: zone_cats)
  finally have hand: "categorical_pvalue chi2_example example_monitor ''zone'' =
      chi2_example [[2, 1], [1, 0]]" .
  have cats: "categories ?a ?b = [3, 4, 5]"
    unfolding categories_sorted_remdups by code_simp
  note t = contingency_table_shape [where ?s1.0 = ?a and ?s2.0 = ?b, THEN conjunct2]
  from t have rows: "contingency_table ?a ?b =
      [map (\<lambda>c. count_list ?a (Some c)) (categories ?a ?b),
       map (\<lambda>c. count_list ?b (Some c)) (categories ?a ?b)]"
    by (rule conjunct1)
  from t have "\<forall>i<length (categories ?a ?b).
      (Some (categories ?a ?b ! i) \<notin> set ?a \<longrightarrow> contingency_table ?a ?b ! 0 ! i = 0) \<and>
      (Some (categories ?a ?b ! i) \<notin> set ?b \<longrightarrow> contingency_table ?a ?b ! 1 ! i = 0)"
    by (intro conjunct2 [of _ "\<forall>i<length (categories ?a ?b). _ i"]) blast
  then have zero: "contingency_table ?a ?b ! 0 ! 2 = 0"
    by (simp add: cats)
  have "contingency_table ?a ?b = [[2, 1, 0], [1, 0, 1]]"
    by (simp add: rows cats)
  with hand cats zero show ?thesis by (intro conjI)
qed

lemma map_filter_id_nonnull:
  "List.map_filter id (filter (\<lambda>x. x \<noteq> None) s) = List.map_filter id s"
  by (induction s) (auto simp: List.map_filter_simps)

lemma count_list_nonnull:
  "count_list (filter (\<lambda>x. x \<noteq> None) s) (Some c) = count_list s (Some c)"
  by (induction s) auto

lemma value_counts_nonnull: "value_counts (filter (\<lambda>x. x \<noteq> None) s) = value_counts s"
  by (simp only: value_counts_def map_filter_id_nonnull count_list_nonnull)

lemma value_counts_null_head: "value_counts (None # s) = value_counts s"
  by (simp add: value_counts_def List.map_filter_simps)

lemma sum_list_indicator:
  "distinct cs \<Longrightarrow> d \<in> set cs \<Longrightarrow> sum_list (map (\<lambda>c. if d = c then 1 else 0) cs) = (1::nat)"
proof (induction cs)
  case Nil
  then show ?case by simp
next
  case (Cons c cs)
  show ?case
  proof (cases "d = c")
    case True
    with Cons.prems have "d \<notin> set cs" by simp
    then have "sum_list (map (\<lambda>c. if d = c then 1 else 0) cs) = (0::nat)"
      by (induction cs) auto
    with True show ?thesis by simp
  next
    case False
    with Cons show ?thesis by simp
  qed
qed

lemma counts_total:
  "distinct cs \<Longrightarrow> {c. Some c \<in> set s} \<subseteq> set cs \<Longrightarrow>
   sum_list (map (\<lambda>c. count_list s (Some c)) cs) = length (filter (\<lambda>x. x \<noteq> None) s)"
proof (induction s)
  case Nil
  then show ?case by simp
next
  case (Cons x s)
  from Cons.prems have sub: "{c. Some c \<in> set s} \<subseteq> set cs" by auto
  note IH = Cons.IH [OF Cons.prems(1) sub]
  show ?case
  proof (cases x)
    case None
    with IH show ?thesis by simp
  next
    case (Some d)
    with Cons.prems have d: "d \<in> set cs" by auto
    have "sum_list (map (\<lambda>c. count_list (x # s) (Some c)) cs) =
        sum_list (map (\<lambda>c. (if d = c then 1 else 0) + count_list s (Some c)) cs)"
      by (rule arg_cong [where f = sum_list]) (simp add: Some)
    also have "\<dots> = sum_list (map (\<lambda>c. if d = c then 1 else 0) cs) +
        sum_list (map (\<lambda>c. count_list s (Some c)) cs)"
      by (rule sum_list_addf)
    also have "\<dots> = 1 + length (filter (\<lambda>x. x \<noteq> None) s)"
      by (simp only: sum_list_indicator [OF Cons.prems(1) d] IH)
    finally show ?thesis by (simp add: Some)
  qed
qed

lemma row_totals:
  "sum_list (map (\<lambda>c. count_list s1 (Some c)) (categories s1 s2)) =
     length (filter (\<lambda>x. x \<noteq> None) s1)"
  "sum_list (map (\<lambda>c. count_list s2 (Some c)) (categories s1 s2)) =
     length (filter (\<lambda>x. x \<noteq> None) s2)"
proof -
  have d: "distinct (categories s1 s2)"
    by (simp add: categories_def)
  have "{c. Some c \<in> set s1} \<subseteq> set (categories s1 s2)"
    and "{c. Some c \<in> set s2} \<subseteq> set (categories s1 s2)"
    by (simp_all add: categories_set)
  then show "sum_list (map (\<lambda>c. count_list s1 (Some c)) (categories s1 s2)) =
      length (filter (\<lambda>x. x \<noteq> None) s1)"
    and "sum_list (map (\<lambda>c. count_list s2 (Some c)) (categories s1 s2)) =
      length (filter (\<lambda>x. x \<noteq> None) s2)"
    by (simp_all only: counts_total [OF d])
qed

text \<open>
  C4 says that nulls are counted as a category of their own in the frequency counts and
  in the contingency table. \<open>value_counts()\<close> is called with its defaults, which drop
  them: a window with one zone 3 and two nulls counts \<open>[(3, 1)]\<close>, and its row of the
  table is \<open>[1, 0]\<close>, with no column for the nulls.
\<close>

theorem nulls_not_counted_counterexample:
  "value_counts [Some (3::int), None, None] = [(3, 1)] \<and>
   contingency_table [Some 3, Some 3, Some 4] [Some (3::int), None, None] = [[2, 1], [1, 0]]"
  by code_simp

text \<open>
  C4, amended. Nulls are left out of the frequency counts and of the contingency table:
  both are the same as for the windows with their nulls removed, prepending a null to a
  window changes neither, and the total of a row is the number of non-null observations
  of its window.
\<close>

theorem nulls_are_dropped:
  "value_counts (filter (\<lambda>x. x \<noteq> None) s) = value_counts s \<and>
   contingency_table (filter (\<lambda>x. x \<noteq> None) s1) (filter (\<lambda>x. x \<noteq> None) s2) =
     contingency_table s1 s2 \<and>
   value_counts (None # s) = value_counts s \<and>
   contingency_table (None # s1) s2 = contingency_table s1 s2 \<and>
   contingency_table s1 (None # s2) = contingency_table s1 s2 \<and>
   map sum_list (contingency_table s1 s2) =
     [length (filter (\<lambda>x. x \<noteq> None) s1), length (filter (\<lambda>x. x \<noteq> None) s2)]"
proof (intro conjI)
  show "value_counts (filter (\<lambda>x. x \<noteq> None) s) = value_counts s"
    by (rule value_counts_nonnull)
  show "contingency_table (filter (\<lambda>x. x \<noteq> None) s1) (filter (\<lambda>x. x \<noteq> None) s2) =
     contingency_table s1 s2"
    by (simp only: contingency_table_def value_counts_nonnull)
  show "value_counts (None # s) = value_counts s"
    by (rule value_counts_null_head)
  show "contingency_table (None # s1) s2 = contingency_table s1 s2"
    by (simp only: contingency_table_def value_counts_null_head)
  show "contingency_table s1 (None # s2) = contingency_table s1 s2"
    by (simp only: contingency_table_def value_counts_null_head)
  show "map sum_list (contingency_table s1 s2) =
     [length (filter (\<lambda>x. x \<noteq> None) s1), length (filter (\<lambda>x. x \<noteq> None) s2)]"
    by (simp only: contingency_table_rows list.map row_totals)
qed

theorem nulls_are_dropped_witness:
  "contingency_table [Some 3, Some 3, Some 4] [Some (3::int), None, None] =
     contingency_table [Some 3, Some 3, Some 4] [Some (3::int)] \<and>
   map sum_list (contingency_table [Some 3, Some 3, Some 4] [Some (3::int), None, None]) = [3, 1]"
proof -
  note t = nulls_are_dropped [of _ "[Some 3, Some 3, Some 4]" "[Some (3::int), None, None]"]
  from t have "contingency_table (filter (\<lambda>x. x \<noteq> None) [Some 3, Some 3, Some 4])
      (filter (\<lambda>x. x \<noteq> None) [Some (3::int), None, None]) =
     contingency_table [Some 3, Some 3, Some 4] [Some (3::int), None, None]"
    by blast
  moreover from t have "map sum_list
      (contingency_table [Some 3, Some 3, Some 4] [Some (3::int), None, None]) =
     [length (filter (\<lambda>x. x \<noteq> None) [Some 3, Some 3, Some (4::int)]),
      length (filter (\<lambda>x. x \<noteq> None) [Some (3::int), None, None])]"
    by blast
  ultimately show ?thesis by simp
qed

subsection \<open>Percent change\<close>

lemma eps_positive: "0 < eps"
  by (simp add: eps_def)

lemma summary_result:
  "summary descr df cs = Inr r \<Longrightarrow>
   r = map (\<lambda>c. (c, descr (column df c))) cs \<and> (\<forall>c\<in>set cs. \<exists>s. getitem df c = Inr s)"
proof (induction cs arbitrary: r)
  case Nil
  then show ?case by simp
next
  case (Cons c cs)
  from Cons.prems obtain s where s: "getitem df c = Inr s"
    by (cases "getitem df c") auto
  with Cons.prems obtain r' where r': "summary descr df cs = Inr r'"
    by (cases "summary descr df cs") auto
  with Cons.prems s have r: "r = (c, descr s) # r'"
    by simp
  from Cons.IH [OF r'] r s show ?case
    by (simp add: column_def)
qed

lemma summary_present:
  "\<forall>c\<in>set cs. c \<in> set (columns df) \<Longrightarrow> \<exists>r. summary descr df cs = Inr r"
proof (induction cs)
  case Nil
  show ?case by simp
next
  case (Cons c cs)
  then obtain r where r: "summary descr df cs = Inr r" by auto
  from Cons.prems have "c \<in> fst ` set df"
    by (simp add: columns_def)
  then have "map_of df c \<noteq> None"
    by (simp only: map_of_eq_None_iff not_not)
  then obtain s where "map_of df c = Some s"
    by blast
  then show ?case
    by (simp add: getitem_def r)
qed

lemma map2_same:
  "map2 (\<lambda>(c, s1) (c', s2). (c, F s1 s2)) (map (\<lambda>c. (c, g c)) cs) (map (\<lambda>c. (c, h c)) cs) =
   map (\<lambda>c. (c, F (g c) (h c))) cs"
  by (induction cs) simp_all

text \<open>
  C7 says that every cell of the percent-change table is
  \<open>100 * |a - b| / (|a| + \<epsilon>)\<close>. The code divides by \<open>a + \<epsilon>\<close> and takes the absolute
  value of the quotient, which is not the same for a negative baseline statistic: for
  \<open>a = -1e-100\<close> (the mean of a baseline column whose only value is that) and \<open>b = 0\<close>
  the divisor is zero and the cell is infinite, where the formula of the claim gives 50.
\<close>

theorem percent_change_counterexample:
  "percent_change_cell (- eps) 0 = PosInf \<and>
   Fin (100 * \<bar>- eps - 0\<bar> / (\<bar>- eps\<bar> + eps)) = Fin 50"
  using eps_positive by (simp add: percent_change_cell_def)

text \<open>
  C7, amended. For every listed numeric feature the statistics are computed for each
  window separately and each cell is \<open>100 * |(a - b) / (a + \<epsilon>)|\<close> with \<open>\<epsilon> = 1e-100\<close>,
  \<open>a\<close> the statistic of the first window and \<open>b\<close> that of the second; the table exists
  whenever every listed feature is a column of both windows. This is
  \<open>100 * |a - b| / |a + \<epsilon>|\<close> whenever \<open>a + \<epsilon>\<close> is not zero, and equals
  \<open>100 * |a - b| / (|a| + \<epsilon>)\<close> for every \<open>a \<ge> 0\<close>; in particular \<open>\<epsilon>\<close> keeps the divisor
  away from zero when the baseline statistic is exactly zero.
\<close>

theorem percent_change_formula:
  "(generate_percent_change descr m = Inr r \<longrightarrow>
      r = map (\<lambda>c. (c, \<lambda>st. percent_change_cell (descr (column (pdf1 m) c) st)
                                              (descr (column (pdf2 m) c) st)))
            (continuous_columns m) \<and>
      (\<forall>c\<in>set (continuous_columns m).
         getitem (pdf1 m) c = Inr (column (pdf1 m) c) \<and>
         getitem (pdf2 m) c = Inr (column (pdf2 m) c))) \<and>
   ((\<forall>c\<in>set (continuous_columns m).
        c \<in> set (columns (pdf1 m)) \<and> c \<in> set (columns (pdf2 m))) \<longrightarrow>
      (\<exists>r. generate_percent_change descr m = Inr r)) \<and>
   (a + eps \<noteq> 0 \<longrightarrow> percent_change_cell a b = Fin (100 * \<bar>a - b\<bar> / \<bar>a + eps\<bar>)) \<and>
   (0 \<le> a \<longrightarrow> percent_change_cell a b = Fin (100 * \<bar>a - b\<bar> / (\<bar>a\<bar> + eps))) \<and>
   percent_change_cell 0 b = Fin (100 * \<bar>b\<bar> / eps)"
proof (intro conjI impI)
  assume g: "generate_percent_change descr m = Inr r"
  then obtain r1 where r1: "summary descr (pdf1 m) (continuous_columns m) = Inr r1"
    by (cases "summary descr (pdf1 m) (continuous_columns m)")
      (auto simp: generate_percent_change_def)
  with g obtain r2 where r2: "summary descr (pdf2 m) (continuous_columns m) = Inr r2"
    by (cases "summary descr (pdf2 m) (continuous_columns m)")
      (auto simp: generate_percent_change_def)
  note s1 = summary_result [OF r1] and s2 = summary_result [OF r2]
  from g r1 r2 have "r = map2 (\<lambda>(c, s1) (c', s2). (c, \<lambda>st. percent_change_cell (s1 st) (s2 st)))
      r1 r2"
    by (simp add: generate_percent_change_def)
  also have "\<dots> = map (\<lambda>c. (c, \<lambda>st. percent_change_cell (descr (column (pdf1 m) c) st)
      (descr (column (pdf2 m) c) st))) (continuous_columns m)"
    by (simp only: conjunct1 [OF s1] conjunct1 [OF s2] map2_same)
  finally show "r = map (\<lambda>c. (c, \<lambda>st. percent_change_cell (descr (column (pdf1 m) c) st)
      (descr (column (pdf2 m) c) st))) (continuous_columns m)" .
  show "\<forall>c\<in>set (continuous_columns m).
      getitem (pdf1 m) c = Inr (column (pdf1 m) c) \<and>
      getitem (pdf2 m) c = Inr (column (pdf2 m) c)"
  proof
    fix c assume "c \<in> set (continuous_columns m)"
    with s1 s2 obtain x y where "getitem (pdf1 m) c = Inr x" "getitem (pdf2 m) c = Inr y"
      by blast
    then show "getitem (pdf1 m) c = Inr (column (pdf1 m) c) \<and>
        getitem (pdf2 m) c = Inr (column (pdf2 m) c)"
      by (simp add: column_def)
  qed
next
  assume present: "\<forall>c\<in>set (continuous_columns m).
      c \<in> set (columns (pdf1 m)) \<and> c \<in> set (columns (pdf2 m))"
  then have "\<forall>c\<in>set (continuous_columns m). c \<in> set (columns (pdf1 m))"
    and "\<forall>c\<in>set (continuous_columns m). c \<in> set (columns (pdf2 m))"
    by simp_all
  then obtain r1 r2 where "summary descr (pdf1 m) (continuous_columns m) = Inr r1"
    and "summary descr (pdf2 m) (continuous_columns m) = Inr r2"
    using summary_present by blast
  then show "\<exists>r. generate_percent_change descr m = Inr r"
    by (simp add: generate_percent_change_def)
next
  assume "a + eps \<noteq> 0"
  then show "percent_change_cell a b = Fin (100 * \<bar>a - b\<bar> / \<bar>a + eps\<bar>)"
    by (simp add: percent_change_cell_def abs_divide)
next
  assume a: "0 \<le> a"
  with eps_positive have "a + eps \<noteq> 0" and "\<bar>a + eps\<bar> = \<bar>a\<bar> + eps"
    by simp_all
  then show "percent_change_cell a b = Fin (100 * \<bar>a - b\<bar> / (\<bar>a\<bar> + eps))"
    by (simp add: percent_change_cell_def abs_divide)
next
  from eps_positive show "percent_change_cell 0 b = Fin (100 * \<bar>b\<bar> / eps)"
    by (simp add: percent_change_cell_def abs_divide)
qed

theorem percent_change_formula_witness:
  "(\<exists>r. generate_percent_change descr_example example_monitor = Inr r \<and>
        map fst r = [''price'', ''beds''] \<and>
        snd (r ! 0) Mean = Fin (100 * \<bar>150 - 300\<bar> / (\<bar>150\<bar> + eps))) \<and>
   percent_change_cell (- 1) 0 = Fin (100 * \<bar>- 1 - 0\<bar> / \<bar>- 1 + eps\<bar>)"
proof -
  let ?m = example_monitor
  have present: "\<forall>c\<in>set (continuous_columns ?m).
      c \<in> set (columns (pdf1 ?m)) \<and> c \<in> set (columns (pdf2 ?m))"
    by (simp add: example_monitor_def columns_def window1_def window2_def)
  have m1: "descr_example (column (pdf1 ?m) ''price'') Mean = 150"
    by (simp add: descr_example_def column_def getitem_def example_monitor_def window1_def
        List.map_filter_simps)
  have m2: "descr_example (column (pdf2 ?m) ''price'') Mean = 300"
    by (simp add: descr_example_def column_def getitem_def example_monitor_def window2_def
        List.map_filter_simps)
  have nz: "- 1 + eps \<noteq> 0"
    by (simp add: eps_def)
  note t = percent_change_formula [where descr = descr_example and m = ?m]
  note total = t [THEN conjunct2, THEN conjunct1, THEN mp]
  from total [OF present] obtain r where r: "generate_percent_change descr_example ?m = Inr r"
    by (rule exE)
  from t [where r = r, THEN conjunct1, THEN mp, OF r]
  have r_eq: "r = map (\<lambda>c. (c, \<lambda>st. percent_change_cell
      (descr_example (column (pdf1 ?m) c) st) (descr_example (column (pdf2 ?m) c) st)))
      (continuous_columns ?m)"
    by (rule conjunct1)
  have pos: "(0::real) \<le> 150"
    by simp
  from t [where a = 150 and b = 300, THEN conjunct2, THEN conjunct2, THEN conjunct2,
      THEN conjunct1, THEN mp, OF pos]
  have cell: "percent_change_cell 150 300 = Fin (100 * \<bar>150 - 300\<bar> / (\<bar>150\<bar> + eps))" .
  have names: "map fst r = [''price'', ''beds'']"
    by (simp add: r_eq example_columns comp_def)
  have mean: "snd (r ! 0) Mean = Fin (100 * \<bar>150 - 300\<bar> / (\<bar>150\<bar> + eps))"
    by (simp only: r_eq example_columns list.map nth_Cons_0 snd_conv m1 m2 cell)
  from t [where a = "- 1" and b = 0, THEN conjunct2, THEN conjunct2, THEN conjunct1,
      THEN mp, OF nz]
  have neg: "percent_change_cell (- 1) 0 = Fin (100 * \<bar>- 1 - 0\<bar> / \<bar>- 1 + eps\<bar>)" .
  from r names mean have "\<exists>r. generate_percent_change descr_example example_monitor = Inr r \<and>
        map fst r = [''price'', ''beds''] \<and>
        snd (r ! 0) Mean = Fin (100 * \<bar>150 - 300\<bar> / (\<bar>150\<bar> + eps))"
    by (intro exI [of _ r] conjI)
  with neg show ?thesis
    by (intro conjI)
qed

end
